theory Spec2Isabelle
  imports Main "HOL-Library.Sublist" "HOL-Library.Multiset"
begin

section \<open>Data model (types.ts)\<close>

datatype IdeaType = PROJECT | FEATURE

datatype IdeaStatus = INBOX | BACKLOG | IN_PROGRESS | DONE

record IdeaRecord =
  localId :: string
  serverId :: "string option"
  content :: string
  ideaType :: IdeaType
  parentProjectLocalId :: "string option"
  parentProjectServerId :: "string option"
  status :: IdeaStatus
  archived :: bool
  ideaCreatedAt :: nat
  updatedAt :: nat

text \<open>
  The six action kinds that the type \<open>OutboxItem['action']\<close> admits.
\<close>

datatype action =
  createProject | createFeature | updateIdea | updateStatus | archiveIdea | deleteIdea

text \<open>
  The outbox column \<open>payload\<close> holds \<open>JSON.stringify\<close> of an object literal; the only
  writer of the table is \<open>enqueueOutbox\<close>, so \<open>JSON.parse\<close> of a stored payload gives
  that object back. The record below is the parsed object. Every enqueue site passes
  \<open>localId\<close> as a string; the other properties are strings, \<open>null\<close> or absent, and
  \<open>null\<close> and absent are both \<open>None\<close> (the code reads them through \<open>??\<close> and
  truthiness tests only).
\<close>

record payload =
  pLocalId :: string
  pContent :: "string option"
  pStatus :: "string option"
  pServerId :: "string option"
  pParentProjectLocalId :: "string option"
  pParentProjectServerId :: "string option"

record OutboxItem =
  item_id :: string
  action :: action
  payload :: payload
  createdAt :: nat
  attemptCount :: nat
  lastError :: "string option"

section \<open>Remote service (the mutations the engine calls)\<close>

datatype remote_call =
    CreateProject "string option"
  | CreateFeature "string option" "string option" string
  | UpdateStatus string "string option"
  | ArchiveIdea string
  | DeleteIdea string

text \<open>
  A mutation either resolves to a server identifier (\<open>Inr\<close>) or rejects (\<open>Inl\<close>) with
  an error whose \<open>message\<close> may be undefined. The service is opaque: its answer to a
  request is any function of the requests made before it.
\<close>

type_synonym remote_result = "string option + string"

type_synonym remote = "remote_call list \<Rightarrow> remote_call \<Rightarrow> remote_result"

section \<open>Local database (localdb.ts)\<close>

text \<open>
  The two tables in row order, and the log of the requests sent to the remote service,
  each tagged with the id of the outbox entry that was being processed. The SQL
  statements are taken to succeed, apart from an INSERT of a primary key that is already
  in the table. \<open>ORDER BY createdAt ASC\<close> is the stable sort of the rows: rows with the
  same \<open>createdAt\<close> stay in row order.
\<close>

record backend =
  ideas :: "IdeaRecord list"
  outbox :: "OutboxItem list"
  calls :: "(string \<times> remote_call) list"

text \<open>
  \<open>insertIdeaLocal\<close>: \<open>uuid\<close> is the value of \<open>Crypto.randomUUID()\<close> and \<open>now\<close> of
  \<open>Date.now()\<close>. \<open>localId\<close> is the primary key, so the INSERT of a key that is
  already there fails (\<open>None\<close>).
\<close>

definition insertIdeaLocal ::
  "string \<Rightarrow> nat \<Rightarrow> string \<Rightarrow> IdeaType \<Rightarrow> string option \<Rightarrow> IdeaStatus option \<Rightarrow>
   IdeaRecord list \<Rightarrow> IdeaRecord list option" where
  "insertIdeaLocal uuid now c t parent st rows =
     (let record = \<lparr>localId = uuid, serverId = None, content = c, ideaType = t,
                     parentProjectLocalId = parent, parentProjectServerId = None,
                     status = (case st of Some v \<Rightarrow> v
                               | None \<Rightarrow> if t = PROJECT then BACKLOG else INBOX),
                     archived = False, ideaCreatedAt = now, updatedAt = now\<rparr>
      in if uuid \<in> localId ` set rows then None else Some (rows @ [record]))"

text \<open>
  \<open>enqueueOutbox\<close>: \<open>i\<close> is the value of \<open>Crypto.randomUUID()\<close>; \<open>id\<close> is the primary
  key of the outbox table.
\<close>

definition enqueueOutbox ::
  "string \<Rightarrow> action \<Rightarrow> payload \<Rightarrow> nat \<Rightarrow> OutboxItem list \<Rightarrow> OutboxItem list option" where
  "enqueueOutbox i a p now rows =
     (if i \<in> item_id ` set rows then None
      else Some (rows @ [\<lparr>item_id = i, action = a, payload = p, createdAt = now,
                          attemptCount = 0, lastError = None\<rparr>]))"

definition markIdeaSynced :: "string \<Rightarrow> string \<Rightarrow> nat \<Rightarrow> IdeaRecord list \<Rightarrow> IdeaRecord list" where
  "markIdeaSynced l sid now rows =
     map (\<lambda>r. if localId r = l then r\<lparr>serverId := Some sid, updatedAt := now\<rparr> else r) rows"

definition removeOutboxByLocalId :: "string \<Rightarrow> OutboxItem list \<Rightarrow> OutboxItem list" where
  "removeOutboxByLocalId l rows = filter (\<lambda>x. pLocalId (payload x) \<noteq> l) rows"

definition removeOutboxById :: "string \<Rightarrow> OutboxItem list \<Rightarrow> OutboxItem list" where
  "removeOutboxById i rows = filter (\<lambda>x. item_id x \<noteq> i) rows"

definition getOutboxItems :: "OutboxItem list \<Rightarrow> OutboxItem list" where
  "getOutboxItems rows = sort_key createdAt rows"

definition deleteIdeaLocal :: "string \<Rightarrow> IdeaRecord list \<Rightarrow> IdeaRecord list" where
  "deleteIdeaLocal l rows = filter (\<lambda>r. localId r \<noteq> l) rows"

definition getServerIdByLocalId :: "string \<Rightarrow> IdeaRecord list \<Rightarrow> string option" where
  "getServerIdByLocalId l rows =
     (case find (\<lambda>r. localId r = l) rows of None \<Rightarrow> None | Some r \<Rightarrow> serverId r)"

definition incrementOutboxAttempt ::
  "string \<Rightarrow> string option \<Rightarrow> OutboxItem list \<Rightarrow> OutboxItem list" where
  "incrementOutboxAttempt l err rows =
     map (\<lambda>x. if pLocalId (payload x) = l
              then x\<lparr>attemptCount := attemptCount x + 1, lastError := err\<rparr> else x) rows"

section \<open>Sync service: processing one item\<close>

definition RETRY_DELAYS :: "nat list" where
  "RETRY_DELAYS = [2000, 5000, 10000, 30000]"

definition MAX_RETRY_ATTEMPTS :: nat where
  "MAX_RETRY_ATTEMPTS = 10"

text \<open>JavaScript truthiness of a string: the empty string is falsy.\<close>

definition truthy :: "string \<Rightarrow> bool" where
  "truthy s = (s \<noteq> [])"

text \<open>
  Awaiting a mutation on behalf of outbox entry \<open>i\<close>: the request is logged and the
  service answers from the requests it has seen so far.
\<close>

definition invoke :: "remote \<Rightarrow> string \<Rightarrow> remote_call \<Rightarrow> backend \<Rightarrow> remote_result \<times> backend" where
  "invoke r i c b = (r (map snd (calls b)) c, b\<lparr>calls := calls b @ [(i, c)]\<rparr>)"

text \<open>
  \<open>payload.serverId ?? (await getServerIdByLocalId(payload.localId))\<close>
\<close>

definition resolveServerId :: "payload \<Rightarrow> backend \<Rightarrow> string option" where
  "resolveServerId p b =
     (case pServerId p of Some v \<Rightarrow> Some v
      | None \<Rightarrow> getServerIdByLocalId (pLocalId p) (ideas b))"

text \<open>
  \<open>payload.parentProjectServerId ?? (payload.parentProjectLocalId ? await
  getServerIdByLocalId(payload.parentProjectLocalId) : undefined)\<close>
\<close>

definition resolveParentServerId :: "payload \<Rightarrow> backend \<Rightarrow> string option" where
  "resolveParentServerId p b =
     (case pParentProjectServerId p of Some v \<Rightarrow> Some v
      | None \<Rightarrow>
          (case pParentProjectLocalId p of None \<Rightarrow> None
           | Some l \<Rightarrow> if truthy l then getServerIdByLocalId l (ideas b) else None))"

text \<open>The \<open>catch\<close> block of \<open>processItem\<close>; \<open>msg\<close> is \<open>e?.message\<close>.\<close>

definition catchBlock :: "OutboxItem \<Rightarrow> string option \<Rightarrow> backend \<Rightarrow> bool \<times> backend" where
  "catchBlock item msg b =
     (let l = pLocalId (payload item);
          b1 = (if truthy l
                then b\<lparr>outbox := incrementOutboxAttempt l
                        (Some (case msg of None \<Rightarrow> ''Sync failed'' | Some m \<Rightarrow> m)) (outbox b)\<rparr>
                else b)
      in if attemptCount item \<ge> MAX_RETRY_ATTEMPTS
         then (True, b1\<lparr>outbox := removeOutboxById (item_id item) (outbox b1)\<rparr>)
         else (False, b1))"

text \<open>
  \<open>processItem\<close>, with \<open>now\<close> the reading of \<open>Date.now()\<close>. The item is the row as it
  was read when the pass took its list; the tables are the current ones.
\<close>

definition processItem :: "remote \<Rightarrow> nat \<Rightarrow> backend \<Rightarrow> OutboxItem \<Rightarrow> bool \<times> backend" where
  "processItem r now b item =
     (let p = payload item in
      case action item of
        createProject \<Rightarrow>
          (case invoke r (item_id item) (CreateProject (pContent p)) b of
             (Inr sid, b1) \<Rightarrow>
               (True, b1\<lparr>ideas := markIdeaSynced (pLocalId p) sid now (ideas b1),
                         outbox := removeOutboxByLocalId (pLocalId p) (outbox b1)\<rparr>)
           | (Inl e, b1) \<Rightarrow> catchBlock item e b1)
      | createFeature \<Rightarrow>
          (let parentServerId = resolveParentServerId p b in
           case invoke r (item_id item)
                  (CreateFeature (pContent p) parentServerId
                     (case pStatus p of None \<Rightarrow> ''INBOX'' | Some st \<Rightarrow> st)) b of
             (Inr sid, b1) \<Rightarrow>
               (True, b1\<lparr>ideas := markIdeaSynced (pLocalId p) sid now (ideas b1),
                         outbox := removeOutboxByLocalId (pLocalId p) (outbox b1)\<rparr>)
           | (Inl e, b1) \<Rightarrow> catchBlock item e b1)
      | updateStatus \<Rightarrow>
          (case resolveServerId p b of
             Some sv \<Rightarrow>
               if truthy sv then
                 (case invoke r (item_id item) (UpdateStatus sv (pStatus p)) b of
                    (Inr _, b1) \<Rightarrow>
                      (True, b1\<lparr>outbox := removeOutboxByLocalId (pLocalId p) (outbox b1)\<rparr>)
                  | (Inl e, b1) \<Rightarrow> catchBlock item e b1)
               else (True, b\<lparr>outbox := removeOutboxById (item_id item) (outbox b)\<rparr>)
           | None \<Rightarrow> (True, b\<lparr>outbox := removeOutboxById (item_id item) (outbox b)\<rparr>))
      | archiveIdea \<Rightarrow>
          (case resolveServerId p b of
             Some sv \<Rightarrow>
               if truthy sv then
                 (case invoke r (item_id item) (ArchiveIdea sv) b of
                    (Inr _, b1) \<Rightarrow>
                      (True, b1\<lparr>outbox := removeOutboxByLocalId (pLocalId p) (outbox b1)\<rparr>)
                  | (Inl e, b1) \<Rightarrow> catchBlock item e b1)
               else (True, b\<lparr>outbox := removeOutboxById (item_id item) (outbox b)\<rparr>)
           | None \<Rightarrow> (True, b\<lparr>outbox := removeOutboxById (item_id item) (outbox b)\<rparr>))
      | deleteIdea \<Rightarrow>
          (case resolveServerId p b of
             Some sv \<Rightarrow>
               if truthy sv then
                 (case invoke r (item_id item) (DeleteIdea sv) b of
                    (Inr _, b1) \<Rightarrow>
                      (True, b1\<lparr>outbox := removeOutboxByLocalId (pLocalId p) (outbox b1)\<rparr>)
                  | (Inl e, b1) \<Rightarrow> catchBlock item e b1)
               else (True, b\<lparr>outbox := removeOutboxById (item_id item) (outbox b)\<rparr>)
           | None \<Rightarrow> (True, b\<lparr>outbox := removeOutboxById (item_id item) (outbox b)\<rparr>))
      | updateIdea \<Rightarrow> (False, b))"

text \<open>
  The request that \<open>processItem\<close> sends for an item in a given state of the tables, if it
  sends one (the lemmas \<open>processItem_no_request\<close>, \<open>processItem_rejected\<close> and
  \<open>processItem_resolved\<close> below tie it to \<open>processItem\<close>).
\<close>

definition requestOf :: "backend \<Rightarrow> OutboxItem \<Rightarrow> remote_call option" where
  "requestOf b item =
     (let p = payload item in
      case action item of
        createProject \<Rightarrow> Some (CreateProject (pContent p))
      | createFeature \<Rightarrow>
          Some (CreateFeature (pContent p) (resolveParentServerId p b)
                  (case pStatus p of None \<Rightarrow> ''INBOX'' | Some st \<Rightarrow> st))
      | updateStatus \<Rightarrow>
          (case resolveServerId p b of
             Some sv \<Rightarrow> if truthy sv then Some (UpdateStatus sv (pStatus p)) else None
           | None \<Rightarrow> None)
      | archiveIdea \<Rightarrow>
          (case resolveServerId p b of
             Some sv \<Rightarrow> if truthy sv then Some (ArchiveIdea sv) else None
           | None \<Rightarrow> None)
      | deleteIdea \<Rightarrow>
          (case resolveServerId p b of
             Some sv \<Rightarrow> if truthy sv then Some (DeleteIdea sv) else None
           | None \<Rightarrow> None)
      | updateIdea \<Rightarrow> None)"

text \<open>
  The items for which \<open>processItem\<close> sends a request whatever the tables hold: a
  create, and an update, archive or delete whose payload has a truthy \<open>serverId\<close>.
\<close>

definition carriesRequest :: "OutboxItem \<Rightarrow> bool" where
  "carriesRequest x =
     (case action x of
        createProject \<Rightarrow> True
      | createFeature \<Rightarrow> True
      | updateIdea \<Rightarrow> False
      | _ \<Rightarrow> (case pServerId (payload x) of None \<Rightarrow> False | Some v \<Rightarrow> truthy v))"

section \<open>Sync service: module state, timers and the drain pass\<close>

datatype timer_callback = RetryCallback | SyncNowCallback

datatype AppStateStatus = Active | Background | Inactive

text \<open>
  A call of \<open>flushOutbox\<close> that has passed its guard is suspended either at
  \<open>await getOutboxItems()\<close> (\<open>Fetching\<close>) or inside the loop, with the items still to
  process and the flag \<open>anyFailed\<close> (\<open>Looping\<close>).
\<close>

datatype pass = Fetching | Looping "OutboxItem list" bool

text \<open>
  The module variables \<open>isOnline\<close>, \<open>isSyncing\<close>, \<open>retryTimeoutId\<close> and \<open>_syncNowFn\<close>
  (here only whether it is set), the two refs of the hook, whether the NetInfo and
  AppState listeners are subscribed, the \<open>NetInfo.fetch()\<close> promises not yet resolved,
  the timers of the host that are pending (id, callback, delay in ms), the calls of
  \<open>flushOutbox\<close> in flight, the reading of \<open>Date.now()\<close>, and the backend.
\<close>

record engine =
  isOnline :: bool
  isSyncing :: bool
  retryTimeoutId :: "nat option"
  syncNowFn :: bool
  mountedRef :: bool
  currentRetryIndex :: nat
  listening :: bool
  pendingFetches :: nat
  timers :: "(nat \<times> timer_callback \<times> nat) list"
  nextTimerId :: nat
  passes :: "pass list"
  clock :: nat
  bk :: backend

definition initEngine :: "backend \<Rightarrow> nat \<Rightarrow> engine" where
  "initEngine b c =
     \<lparr>isOnline = True, isSyncing = False, retryTimeoutId = None, syncNowFn = False,
      mountedRef = True, currentRetryIndex = 0, listening = False, pendingFetches = 0,
      timers = [], nextTimerId = 1, passes = [], clock = c, bk = b\<rparr>"

definition setTimeout :: "timer_callback \<Rightarrow> nat \<Rightarrow> engine \<Rightarrow> nat \<times> engine" where
  "setTimeout cb delay s =
     (nextTimerId s,
      s\<lparr>timers := timers s @ [(nextTimerId s, cb, delay)], nextTimerId := Suc (nextTimerId s)\<rparr>)"

definition clearTimeout :: "nat \<Rightarrow> engine \<Rightarrow> engine" where
  "clearTimeout t s = s\<lparr>timers := filter (\<lambda>x. fst x \<noteq> t) (timers s)\<rparr>"

text \<open>The \<open>for\<close> loop of \<open>flushOutbox\<close>, run without another event in between.\<close>

fun drainLoop :: "remote \<Rightarrow> engine \<Rightarrow> OutboxItem list \<Rightarrow> bool \<Rightarrow> bool \<times> engine" where
  "drainLoop r s [] anyFailed = (anyFailed, s)"
| "drainLoop r s (item # items) anyFailed =
     (if \<not> mountedRef s \<or> \<not> isOnline s then (anyFailed, s)
      else case processItem r (clock s) (bk s) item of
             (success, b') \<Rightarrow> drainLoop r (s\<lparr>bk := b'\<rparr>) items (anyFailed \<or> \<not> success))"

text \<open>One iteration of the loop, past its test of \<open>mountedRef\<close> and \<open>isOnline\<close>.\<close>

definition iteration :: "remote \<Rightarrow> bool \<times> engine \<Rightarrow> OutboxItem \<Rightarrow> bool \<times> engine" where
  "iteration r st item =
     (case st of (anyFailed, s) \<Rightarrow>
        case processItem r (clock s) (bk s) item of
          (success, b') \<Rightarrow> (anyFailed \<or> \<not> success, s\<lparr>bk := b'\<rparr>))"

text \<open>
  What \<open>flushOutbox\<close> does after the loop: schedule a retry or reset the backoff, then
  the \<open>finally\<close> block.
\<close>

definition afterLoop :: "bool \<Rightarrow> engine \<Rightarrow> engine" where
  "afterLoop anyFailed s =
     (if anyFailed \<and> isOnline s \<and> mountedRef s then
        (let delay = RETRY_DELAYS ! min (currentRetryIndex s) (length RETRY_DELAYS - 1);
             s1 = s\<lparr>currentRetryIndex := currentRetryIndex s + 1\<rparr>;
             s2 = (case retryTimeoutId s1 of Some t \<Rightarrow> clearTimeout t s1 | None \<Rightarrow> s1)
         in case setTimeout RetryCallback delay s2 of
              (t, s3) \<Rightarrow> s3\<lparr>retryTimeoutId := Some t, isSyncing := False\<rparr>)
      else s\<lparr>currentRetryIndex := 0, isSyncing := False\<rparr>)"

text \<open>One whole call of \<open>flushOutbox\<close>, run without another event in between.\<close>

definition flushOutboxPass :: "remote \<Rightarrow> engine \<Rightarrow> engine" where
  "flushOutboxPass r s =
     (if \<not> mountedRef s \<or> isSyncing s \<or> \<not> isOnline s then s
      else let s1 = s\<lparr>isSyncing := True\<rparr>;
               items = getOutboxItems (outbox (bk s1))
           in if items = [] then s1\<lparr>currentRetryIndex := 0, isSyncing := False\<rparr>
              else case drainLoop r s1 items False of (anyFailed, s2) \<Rightarrow> afterLoop anyFailed s2)"

text \<open>
  The value of \<open>anyFailed\<close> when the loop of an uninterrupted pass started in \<open>s\<close>
  ends.
\<close>

definition passAnyFailed :: "remote \<Rightarrow> engine \<Rightarrow> bool" where
  "passAnyFailed r s =
     fst (drainLoop r (s\<lparr>isSyncing := True\<rparr>) (getOutboxItems (outbox (bk s))) False)"

section \<open>Sync service: the event loop\<close>

text \<open>
  A call of \<open>flushOutbox\<close> up to its first \<open>await\<close>: the guard, then \<open>isSyncing = true\<close>.
\<close>

definition flushOutbox :: "engine \<Rightarrow> engine" where
  "flushOutbox s =
     (if \<not> mountedRef s \<or> isSyncing s \<or> \<not> isOnline s then s
      else s\<lparr>isSyncing := True, passes := passes s @ [Fetching]\<rparr>)"

definition dropPass :: "nat \<Rightarrow> engine \<Rightarrow> engine" where
  "dropPass i s = s\<lparr>passes := take i (passes s) @ drop (Suc i) (passes s)\<rparr>"

text \<open>
  The call of \<open>flushOutbox\<close> number \<open>i\<close> in flight goes on to its next suspension: it
  receives the list of items, or runs one iteration of the loop, or leaves the loop and
  returns. Other events happen between these steps and not within one: what arrives
  while \<open>processItem\<close> awaits the remote service or the database takes effect before or
  after that item's iteration.
\<close>

definition resumePass :: "remote \<Rightarrow> nat \<Rightarrow> engine \<Rightarrow> engine" where
  "resumePass r i s =
     (if i \<ge> length (passes s) then s
      else case passes s ! i of
        Fetching \<Rightarrow>
          (let items = getOutboxItems (outbox (bk s))
           in if items = [] then (dropPass i s)\<lparr>currentRetryIndex := 0, isSyncing := False\<rparr>
              else s\<lparr>passes := (passes s)[i := Looping items False]\<rparr>)
      | Looping [] anyFailed \<Rightarrow> afterLoop anyFailed (dropPass i s)
      | Looping (item # items) anyFailed \<Rightarrow>
          (if \<not> mountedRef s \<or> \<not> isOnline s then afterLoop anyFailed (dropPass i s)
           else case processItem r (clock s) (bk s) item of
                  (success, b') \<Rightarrow>
                    s\<lparr>bk := b',
                      passes := (passes s)[i := Looping items (anyFailed \<or> \<not> success)]\<rparr>))"

definition handleConnectivityChange :: "bool option \<Rightarrow> engine \<Rightarrow> engine" where
  "handleConnectivityChange isConnected s =
     (let wasOffline = \<not> isOnline s;
          s1 = s\<lparr>isOnline := (case isConnected of None \<Rightarrow> False | Some v \<Rightarrow> v)\<rparr>
      in if wasOffline \<and> isOnline s1 \<and> mountedRef s1
         then flushOutbox (s1\<lparr>currentRetryIndex := 0\<rparr>)
         else s1)"

definition handleAppStateChange :: "AppStateStatus \<Rightarrow> engine \<Rightarrow> engine" where
  "handleAppStateChange st s =
     (if st = Active \<and> isOnline s \<and> mountedRef s then flushOutbox s else s)"

definition syncNow :: "engine \<Rightarrow> engine" where
  "syncNow s = (if \<not> isOnline s then s else snd (setTimeout SyncNowCallback 100 s))"

definition triggerSync :: "engine \<Rightarrow> engine" where
  "triggerSync s = (if syncNowFn s then syncNow s else s)"

text \<open>The two effects of the hook, and their cleanups.\<close>

definition mount :: "engine \<Rightarrow> engine" where
  "mount s =
     flushOutbox (s\<lparr>syncNowFn := True, mountedRef := True, listening := True,
                    pendingFetches := Suc (pendingFetches s)\<rparr>)"

definition unmount :: "engine \<Rightarrow> engine" where
  "unmount s =
     (let s1 = s\<lparr>syncNowFn := False, mountedRef := False, listening := False\<rparr>
      in case retryTimeoutId s1 of
           Some t \<Rightarrow> (clearTimeout t s1)\<lparr>retryTimeoutId := None\<rparr>
         | None \<Rightarrow> s1)"

text \<open>A pending timer expires: it leaves the host's table and its callback runs.\<close>

definition fireTimer :: "nat \<Rightarrow> engine \<Rightarrow> engine" where
  "fireTimer t s =
     (case find (\<lambda>x. fst x = t) (timers s) of
        None \<Rightarrow> s
      | Some (_, cb, _) \<Rightarrow>
          (let s1 = s\<lparr>timers := filter (\<lambda>x. fst x \<noteq> t) (timers s)\<rparr>
           in case cb of
                RetryCallback \<Rightarrow> if mountedRef s1 \<and> isOnline s1 then flushOutbox s1 else s1
              | SyncNowCallback \<Rightarrow> flushOutbox s1))"

text \<open>
  What can happen to the engine: the hook mounts or unmounts, NetInfo reports a state
  (through the listener or through the promise of \<open>NetInfo.fetch()\<close>), the app changes
  state, the UI calls \<open>triggerSync\<close>, a timer expires, a call of \<open>flushOutbox\<close> in flight
  is resumed, time passes, and the UI writes to the local tables.
\<close>

datatype event =
    Mount
  | Unmount
  | ConnectivityChange "bool option"
  | NetInfoFetched "bool option"
  | AppStateChange AppStateStatus
  | TriggerSync
  | TimerFires nat
  | Resume nat
  | Tick nat
  | UiInsertIdea string string IdeaType "string option" "IdeaStatus option"
  | UiDeleteIdea string
  | UiEnqueue string action payload

definition handle :: "remote \<Rightarrow> event \<Rightarrow> engine \<Rightarrow> engine" where
  "handle r ev s =
     (case ev of
        Mount \<Rightarrow> mount s
      | Unmount \<Rightarrow> unmount s
      | ConnectivityChange c \<Rightarrow> if listening s then handleConnectivityChange c s else s
      | NetInfoFetched c \<Rightarrow>
          if pendingFetches s > 0
          then handleConnectivityChange c (s\<lparr>pendingFetches := pendingFetches s - 1\<rparr>)
          else s
      | AppStateChange st \<Rightarrow> if listening s then handleAppStateChange st s else s
      | TriggerSync \<Rightarrow> triggerSync s
      | TimerFires t \<Rightarrow> fireTimer t s
      | Resume i \<Rightarrow> resumePass r i s
      | Tick n \<Rightarrow> s\<lparr>clock := clock s + n\<rparr>
      | UiInsertIdea uuid c t parent st \<Rightarrow>
          (case insertIdeaLocal uuid (clock s) c t parent st (ideas (bk s)) of
             None \<Rightarrow> s
           | Some rows \<Rightarrow> s\<lparr>bk := (bk s)\<lparr>ideas := rows\<rparr>\<rparr>)
      | UiDeleteIdea l \<Rightarrow> s\<lparr>bk := (bk s)\<lparr>ideas := deleteIdeaLocal l (ideas (bk s))\<rparr>\<rparr>
      | UiEnqueue i a p \<Rightarrow>
          (case enqueueOutbox i a p (clock s) (outbox (bk s)) of
             None \<Rightarrow> s
           | Some rows \<Rightarrow> s\<lparr>bk := (bk s)\<lparr>outbox := rows\<rparr>\<rparr>))"

definition run :: "remote \<Rightarrow> event list \<Rightarrow> engine \<Rightarrow> engine" where
  "run r evs s = fold (handle r) evs s"

text \<open>
  The events through which the environment asks for a drain: the mount of the hook, a
  report of NetInfo, a change of app state, a call of \<open>triggerSync\<close>.
\<close>

definition isTrigger :: "event \<Rightarrow> bool" where
  "isTrigger ev =
     (case ev of
        Mount \<Rightarrow> True
      | ConnectivityChange _ \<Rightarrow> True
      | NetInfoFetched _ \<Rightarrow> True
      | AppStateChange _ \<Rightarrow> True
      | TriggerSync \<Rightarrow> True
      | _ \<Rightarrow> False)"

text \<open>The pending timers that were scheduled as retries.\<close>

definition retryTimers :: "engine \<Rightarrow> (nat \<times> timer_callback \<times> nat) list" where
  "retryTimers s = filter (\<lambda>x. fst (snd x) = RetryCallback) (timers s)"

text \<open>
  Two invariants of the event loop: at most one call of \<open>flushOutbox\<close> is in flight, and
  \<open>isSyncing\<close> says whether one is; the pending timers have distinct ids below
  \<open>nextTimerId\<close>, and a pending retry is the timer that \<open>retryTimeoutId\<close> names.
\<close>

definition passInv :: "engine \<Rightarrow> bool" where
  "passInv s = (length (passes s) \<le> 1 \<and> (isSyncing s \<longleftrightarrow> passes s \<noteq> []))"

definition timerInv :: "engine \<Rightarrow> bool" where
  "timerInv s =
     ((\<forall>x\<in>set (timers s). fst x < nextTimerId s \<and>
          (fst (snd x) = RetryCallback \<longrightarrow> retryTimeoutId s = Some (fst x))) \<and>
      distinct (map fst (timers s)))"

section \<open>Sample data\<close>

definition sampleIdea :: "string \<Rightarrow> string option \<Rightarrow> IdeaRecord" where
  "sampleIdea l sid =
     \<lparr>localId = l, serverId = sid, content = ''Ship v1'', ideaType = PROJECT,
      parentProjectLocalId = None, parentProjectServerId = None, status = BACKLOG,
      archived = False, ideaCreatedAt = 0, updatedAt = 0\<rparr>"

definition samplePayload :: "string \<Rightarrow> string option \<Rightarrow> string option \<Rightarrow> payload" where
  "samplePayload l sid parent =
     \<lparr>pLocalId = l, pContent = Some ''Ship v1'', pStatus = Some ''DONE'', pServerId = sid,
      pParentProjectLocalId = parent, pParentProjectServerId = None\<rparr>"

definition sampleItem :: "string \<Rightarrow> action \<Rightarrow> payload \<Rightarrow> nat \<Rightarrow> nat \<Rightarrow> OutboxItem" where
  "sampleItem i a p t n =
     \<lparr>item_id = i, action = a, payload = p, createdAt = t, attemptCount = n, lastError = None\<rparr>"

definition remoteUp :: remote where
  "remoteUp h c = Inr (''srv_'' @ replicate (Suc (length h)) CHR ''1'')"

definition remoteDown :: remote where
  "remoteDown h c = Inl (Some ''Network request failed'')"

text \<open>The engine once the hook has mounted, online and idle.\<close>

definition readyEngine :: "backend \<Rightarrow> engine" where
  "readyEngine b = (initEngine b 0)\<lparr>syncNowFn := True, listening := True\<rparr>"

definition sampleBackend :: "IdeaRecord list \<Rightarrow> OutboxItem list \<Rightarrow> backend" where
  "sampleBackend rows items = \<lparr>ideas = rows, outbox = items, calls = []\<rparr>"

text \<open>A service that rejects the first \<open>n\<close> requests and resolves the later ones.\<close>

definition remoteDownFor :: "nat \<Rightarrow> remote" where
  "remoteDownFor n h c =
     (if length h < n then Inl (Some ''Network request failed'') else Inr ''srv_1'')"

text \<open>
  The engine after \<open>k\<close> passes in a row in which the one outbox item was rejected.
\<close>

definition backoffState :: "nat \<Rightarrow> (string \<times> remote_call) list \<Rightarrow> engine" where
  "backoffState k log =
     (readyEngine
        \<lparr>ideas = [sampleIdea ''L1'' None],
         outbox = [(sampleItem ''e1'' createProject (samplePayload ''L1'' None None) 5 k)
                     \<lparr>lastError := (if k = 0 then None else Some ''Network request failed'')\<rparr>],
         calls = log\<rparr>)
       \<lparr>currentRetryIndex := k,
         timers := (if k = 0 then [] else [(k, RetryCallback, RETRY_DELAYS ! min (k - 1) 3)]),
         nextTimerId := Suc k,
         retryTimeoutId := (if k = 0 then None else Some k)\<rparr>"

lemmas sample_eval = sampleIdea_def samplePayload_def sampleItem_def sampleBackend_def
        readyEngine_def initEngine_def remoteDownFor_def flushOutboxPass_def
        getOutboxItems_def processItem_def invoke_def catchBlock_def incrementOutboxAttempt_def
        removeOutboxById_def MAX_RETRY_ATTEMPTS_def
        markIdeaSynced_def removeOutboxByLocalId_def passAnyFailed_def
        resolveServerId_def getServerIdByLocalId_def truthy_def afterLoop_def Let_def
        setTimeout_def clearTimeout_def RETRY_DELAYS_def backoffState_def

lemmas machine_eval = sample_eval run_def handle_def mount_def unmount_def flushOutbox_def
  resumePass_def dropPass_def handleAppStateChange_def handleConnectivityChange_def
  fireTimer_def triggerSync_def syncNow_def isTrigger_def

section \<open>Lemmas about one item\<close>

lemma processItem_no_request:
  assumes "requestOf b item = None"
  shows "processItem r now b item =
           (if action item = updateIdea then (False, b)
            else (True, b\<lparr>outbox := removeOutboxById (item_id item) (outbox b)\<rparr>))"
  using assms
  by (cases "action item")
     (auto simp: processItem_def requestOf_def Let_def split: option.splits if_splits)

lemma processItem_rejected:
  assumes "requestOf b item = Some c" and "r (map snd (calls b)) c = Inl e"
  shows "processItem r now b item = catchBlock item e (b\<lparr>calls := calls b @ [(item_id item, c)]\<rparr>)"
  using assms
  by (cases "action item")
     (auto simp: processItem_def requestOf_def invoke_def Let_def split: option.splits if_splits)

lemma processItem_resolved:
  assumes "requestOf b item = Some c" and "r (map snd (calls b)) c = Inr sid"
  shows "processItem r now b item =
           (True, b\<lparr>calls := calls b @ [(item_id item, c)],
                     ideas := (if action item = createProject \<or> action item = createFeature
                               then markIdeaSynced (pLocalId (payload item)) sid now (ideas b)
                               else ideas b),
                     outbox := removeOutboxByLocalId (pLocalId (payload item)) (outbox b)\<rparr>)"
  using assms
  by (cases "action item")
     (auto simp: processItem_def requestOf_def invoke_def Let_def split: option.splits if_splits)

lemma catchBlock_result:
  "catchBlock x e b =
     (MAX_RETRY_ATTEMPTS \<le> attemptCount x,
      b\<lparr>outbox := (if MAX_RETRY_ATTEMPTS \<le> attemptCount x then removeOutboxById (item_id x) else (\<lambda>rows. rows))
                    ((if truthy (pLocalId (payload x))
                      then incrementOutboxAttempt (pLocalId (payload x))
                             (Some (case e of None \<Rightarrow> ''Sync failed'' | Some m \<Rightarrow> m))
                      else (\<lambda>rows. rows)) (outbox b))\<rparr>)"
  by (simp add: catchBlock_def Let_def)


lemma incrementOutboxAttempt_row:
  "y \<in> set rows \<Longrightarrow> pLocalId (payload y) = l \<Longrightarrow>
   y\<lparr>attemptCount := attemptCount y + 1, lastError := err\<rparr> \<in> set (incrementOutboxAttempt l err rows)"
  by (induction rows) (auto simp: incrementOutboxAttempt_def)

lemma processItem_calls:
  "calls (snd (processItem r now b x)) =
     calls b @ (case requestOf b x of None \<Rightarrow> [] | Some c \<Rightarrow> [(item_id x, c)])"
proof (cases "requestOf b x")
  case None
  then show ?thesis by (simp add: processItem_no_request)
next
  case (Some c)
  show ?thesis
  proof (cases "r (map snd (calls b)) c")
    case (Inl e)
    then show ?thesis using Some by (simp add: processItem_rejected catchBlock_result)
  next
    case (Inr sid)
    then show ?thesis using Some by (simp add: processItem_resolved)
  qed
qed

lemma processItem_keeps_other:
  assumes "x \<in> set (outbox b)" and "item_id y \<noteq> item_id x"
    and "pLocalId (payload y) \<noteq> pLocalId (payload x)"
  shows "x \<in> set (outbox (snd (processItem r now b y)))"
proof (cases "requestOf b y")
  case None
  then show ?thesis using assms
    by (simp add: processItem_no_request removeOutboxById_def)
next
  case (Some c)
  show ?thesis
  proof (cases "r (map snd (calls b)) c")
    case (Inl e)
    have "x \<in> set (incrementOutboxAttempt (pLocalId (payload y)) err (outbox b))" for err
      using assms(1,3) by (induction "outbox b") (auto simp: incrementOutboxAttempt_def)
    then show ?thesis using Some Inl assms
      by (simp add: processItem_rejected catchBlock_result removeOutboxById_def)
  next
    case (Inr sid)
    then show ?thesis using Some assms
      by (simp add: processItem_resolved removeOutboxByLocalId_def)
  qed
qed

lemma getServerId_markSynced_same:
  "l \<in> localId ` set rows \<Longrightarrow> getServerIdByLocalId l (markIdeaSynced l sid now rows) = Some sid"
  by (induction rows) (auto simp: getServerIdByLocalId_def markIdeaSynced_def)

lemma getServerId_markSynced_other:
  "l' \<noteq> l \<Longrightarrow> getServerIdByLocalId l (markIdeaSynced l' sid now rows) = getServerIdByLocalId l rows"
  by (induction rows) (auto simp: getServerIdByLocalId_def markIdeaSynced_def)

lemma processItem_preserves_serverId:
  assumes "action m = createProject \<or> action m = createFeature \<longrightarrow> pLocalId (payload m) \<noteq> l"
  shows "getServerIdByLocalId l (ideas (snd (processItem r now b m))) = getServerIdByLocalId l (ideas b)"
proof (cases "requestOf b m")
  case None
  then show ?thesis by (simp add: processItem_no_request)
next
  case (Some c)
  show ?thesis
  proof (cases "r (map snd (calls b)) c")
    case (Inl e)
    then show ?thesis using Some by (simp add: processItem_rejected catchBlock_result)
  next
    case (Inr sid)
    then show ?thesis using Some assms
      by (auto simp: processItem_resolved getServerId_markSynced_other)
  qed
qed

lemma getServerId_absent:
  "l \<notin> localId ` set rows \<Longrightarrow> getServerIdByLocalId l rows = None"
  by (induction rows) (auto simp: getServerIdByLocalId_def)

lemma getServerId_present:
  "getServerIdByLocalId l rows = Some v \<Longrightarrow> l \<in> localId ` set rows"
  using getServerId_absent[of l rows] by (cases "l \<in> localId ` set rows") simp_all

lemma markIdeaSynced_localIds:
  "localId ` set (markIdeaSynced l sid now rows) = localId ` set rows"
  by (induction rows) (auto simp: markIdeaSynced_def)

lemma processItem_ideas:
  "ideas (snd (processItem r now b m)) = ideas b \<or>
   (\<exists>sid. ideas (snd (processItem r now b m)) = markIdeaSynced (pLocalId (payload m)) sid now (ideas b))"
proof (cases "requestOf b m")
  case None
  then show ?thesis by (simp add: processItem_no_request)
next
  case (Some c)
  show ?thesis
  proof (cases "r (map snd (calls b)) c")
    case (Inl e)
    then show ?thesis using Some by (simp add: processItem_rejected catchBlock_result)
  next
    case (Inr sid)
    then show ?thesis using Some by (auto simp: processItem_resolved)
  qed
qed

lemma processItem_localIds:
  "localId ` set (ideas (snd (processItem r now b m))) = localId ` set (ideas b)"
  using processItem_ideas[of r now b m] markIdeaSynced_localIds[of "pLocalId (payload m)" _ now "ideas b"]
  by (elim disjE exE) simp_all

lemma processItem_keeps_serverId_set:
  assumes "getServerIdByLocalId l (ideas b) \<noteq> None"
  shows "getServerIdByLocalId l (ideas (snd (processItem r now b m))) \<noteq> None"
proof -
  from assms obtain v where v: "getServerIdByLocalId l (ideas b) = Some v" by auto
  then have mem: "l \<in> localId ` set (ideas b)" by (rule getServerId_present)
  have "getServerIdByLocalId l (markIdeaSynced l' sid now (ideas b)) \<noteq> None" for l' sid
    using v mem
    by (cases "l' = l") (simp_all add: getServerId_markSynced_same getServerId_markSynced_other)
  then show ?thesis using processItem_ideas[of r now b m] assms by auto
qed

lemma processItem_createFeature:
  assumes "action z = createFeature"
  shows "processItem r now b z =
     (let c = CreateFeature (pContent (payload z))
                (case pParentProjectServerId (payload z) of
                   Some v \<Rightarrow> Some v
                 | None \<Rightarrow>
                     (case pParentProjectLocalId (payload z) of
                        None \<Rightarrow> None
                      | Some l \<Rightarrow> if truthy l then getServerIdByLocalId l (ideas b) else None))
                (case pStatus (payload z) of None \<Rightarrow> ''INBOX'' | Some st \<Rightarrow> st);
          b1 = b\<lparr>calls := calls b @ [(item_id z, c)]\<rparr>
      in case r (map snd (calls b)) c of
           Inr sid' \<Rightarrow>
             (True, b1\<lparr>ideas := markIdeaSynced (pLocalId (payload z)) sid' now (ideas b),
                       outbox := removeOutboxByLocalId (pLocalId (payload z)) (outbox b)\<rparr>)
         | Inl e \<Rightarrow> catchBlock z e b1)"
  using assms
  by (simp add: processItem_def invoke_def resolveParentServerId_def Let_def split: sum.splits)

lemma incrementOutboxAttempt_entry:
  "x \<in> set rows \<Longrightarrow>
   \<exists>x'\<in>set (incrementOutboxAttempt l err rows).
     item_id x' = item_id x \<and> action x' = action x \<and> payload x' = payload x"
  by (induction rows) (auto simp: incrementOutboxAttempt_def)

lemma processItem_keeps_entry:
  assumes "x \<in> set (outbox b)" and "item_id w \<noteq> item_id x"
    and "\<not> (pLocalId (payload w) = pLocalId (payload x) \<and>
             (\<exists>c sid. requestOf b w = Some c \<and> r (map snd (calls b)) c = Inr sid))"
  shows "\<exists>x'\<in>set (outbox (snd (processItem r now b w))).
           item_id x' = item_id x \<and> action x' = action x \<and> payload x' = payload x"
proof (cases "requestOf b w")
  case None
  then show ?thesis using assms(1,2)
    by (auto simp: processItem_no_request removeOutboxById_def)
next
  case (Some c)
  show ?thesis
  proof (cases "r (map snd (calls b)) c")
    case (Inl e)
    let ?rows = "(if truthy (pLocalId (payload w))
                  then incrementOutboxAttempt (pLocalId (payload w))
                         (Some (case e of None \<Rightarrow> ''Sync failed'' | Some m \<Rightarrow> m))
                  else (\<lambda>rows. rows)) (outbox b)"
    have "\<exists>x'\<in>set ?rows. item_id x' = item_id x \<and> action x' = action x \<and> payload x' = payload x"
      using assms(1) incrementOutboxAttempt_entry[of x "outbox b"]
      by (cases "truthy (pLocalId (payload w))") auto
    then obtain x' where x': "x' \<in> set ?rows" "item_id x' = item_id x" "action x' = action x"
      "payload x' = payload x" by auto
    have "x' \<in> set (outbox (snd (processItem r now b w)))"
      using Some Inl x'(1,2) assms(2)
      by (simp add: processItem_rejected catchBlock_result removeOutboxById_def)
    then show ?thesis using x'(2,3,4) by (intro bexI[of _ x']) simp_all
  next
    case (Inr sid)
    then have "pLocalId (payload w) \<noteq> pLocalId (payload x)"
      using Some assms(3) by auto
    then show ?thesis using Some Inr assms(1)
      by (auto simp: processItem_resolved removeOutboxByLocalId_def)
  qed
qed

lemma requestOf_carries: "carriesRequest x \<Longrightarrow> \<exists>c. requestOf b x = Some c"
  by (cases "action x")
     (auto simp: carriesRequest_def requestOf_def resolveServerId_def Let_def split: option.splits)

section \<open>Lemmas about the drain loop\<close>

lemma drainLoop_frame:
  "snd (drainLoop r s items af) = s\<lparr>bk := bk (snd (drainLoop r s items af))\<rparr>"
proof (induction items arbitrary: s af)
  case Nil
  then show ?case by simp
next
  case (Cons x xs)
  show ?case
  proof (cases "\<not> mountedRef s \<or> \<not> isOnline s")
    case True
    then show ?thesis by simp
  next
    case False
    obtain ok b' where p: "processItem r (clock s) (bk s) x = (ok, b')"
      by (cases "processItem r (clock s) (bk s) x")
    have "snd (drainLoop r (s\<lparr>bk := b'\<rparr>) xs (af \<or> \<not> ok)) =
          (s\<lparr>bk := b'\<rparr>)\<lparr>bk := bk (snd (drainLoop r (s\<lparr>bk := b'\<rparr>) xs (af \<or> \<not> ok)))\<rparr>"
      by (rule Cons.IH)
    then show ?thesis using False p by simp
  qed
qed

lemma drainLoop_live:
  assumes "drainLoop r s items af = (af', s')"
  shows "mountedRef s' = mountedRef s \<and> isOnline s' = isOnline s \<and> clock s' = clock s"
proof -
  have "s' = s\<lparr>bk := bk s'\<rparr>"
    using drainLoop_frame[of r s items af] assms by simp
  then show ?thesis
    by (metis engine.select_convs(1,5,12) engine.surjective engine.update_convs(13))
qed

lemma iteration_live:
  "mountedRef (snd (iteration r (af, s) x)) = mountedRef s \<and>
   isOnline (snd (iteration r (af, s) x)) = isOnline s"
  by (simp add: iteration_def split: prod.splits)

lemma drainLoop_no_break:
  "mountedRef s \<Longrightarrow> isOnline s \<Longrightarrow> drainLoop r s items af = foldl (iteration r) (af, s) items"
proof (induction items arbitrary: s af)
  case Nil
  then show ?case by simp
next
  case (Cons x xs)
  obtain ok b' where p: "processItem r (clock s) (bk s) x = (ok, b')"
    by (cases "processItem r (clock s) (bk s) x")
  have "drainLoop r (s\<lparr>bk := b'\<rparr>) xs (af \<or> \<not> ok) = foldl (iteration r) (af \<or> \<not> ok, s\<lparr>bk := b'\<rparr>) xs"
    using Cons.prems by (intro Cons.IH) simp_all
  moreover have "iteration r (af, s) x = (af \<or> \<not> ok, s\<lparr>bk := b'\<rparr>)"
    using p by (simp add: iteration_def)
  ultimately show ?case using Cons.prems p by simp
qed

lemma drainLoop_append:
  assumes "mountedRef s" and "isOnline s"
  shows "drainLoop r s (xs @ ys) af =
           (case drainLoop r s xs af of (af', s') \<Rightarrow> drainLoop r s' ys af')"
proof -
  obtain af' s' where d: "drainLoop r s xs af = (af', s')" by (cases "drainLoop r s xs af")
  have live: "mountedRef s' \<and> isOnline s'"
    using drainLoop_frame[of r s xs af] d assms
    by (metis engine.select_convs(1,5) engine.surjective engine.update_convs(13) snd_conv)
  show ?thesis
    using assms live d by (simp add: drainLoop_no_break)
qed

lemma drainLoop_anyFailed: "af \<Longrightarrow> fst (drainLoop r s items af)"
  by (induction items arbitrary: s) (auto split: prod.splits)

lemma drainLoop_calls:
  "\<exists>new. calls (bk (snd (drainLoop r s items af))) = calls (bk s) @ new \<and>
         subseq (map fst new) (map item_id items)"
proof (induction items arbitrary: s af)
  case Nil
  then show ?case by simp
next
  case (Cons x xs)
  show ?case
  proof (cases "\<not> mountedRef s \<or> \<not> isOnline s")
    case True
    then show ?thesis by simp
  next
    case False
    obtain ok b' where p: "processItem r (clock s) (bk s) x = (ok, b')"
      by (cases "processItem r (clock s) (bk s) x")
    from Cons.IH[of "s\<lparr>bk := b'\<rparr>" "af \<or> \<not> ok"]
    obtain new where n: "calls (bk (snd (drainLoop r (s\<lparr>bk := b'\<rparr>) xs (af \<or> \<not> ok)))) = calls b' @ new"
      "subseq (map fst new) (map item_id xs)" by auto
    have c: "calls b' = calls (bk s) @ (case requestOf (bk s) x of None \<Rightarrow> [] | Some c \<Rightarrow> [(item_id x, c)])"
      using processItem_calls[of r "clock s" "bk s" x] p by simp
    show ?thesis
    proof (cases "requestOf (bk s) x")
      case None
      then show ?thesis using False p n c by (auto intro!: exI[of _ new])
    next
      case (Some c')
      then show ?thesis using False p n c by (auto intro!: exI[of _ "(item_id x, c') # new"])
    qed
  qed
qed

lemma drainLoop_updateIdea:
  "mountedRef s \<Longrightarrow> isOnline s \<Longrightarrow> x \<in> set items \<Longrightarrow> action x = updateIdea \<Longrightarrow>
   fst (drainLoop r s items af)"
proof (induction items arbitrary: s af)
  case Nil
  then show ?case by simp
next
  case (Cons y ys)
  obtain ok b' where p: "processItem r (clock s) (bk s) y = (ok, b')"
    by (cases "processItem r (clock s) (bk s) y")
  show ?case
  proof (cases "x = y")
    case True
    then have "processItem r (clock s) (bk s) y = (False, bk s)"
      using Cons.prems(4) by (simp add: processItem_def)
    then show ?thesis using Cons.prems(1,2) by (simp add: drainLoop_anyFailed)
  next
    case False
    then have "x \<in> set ys" using Cons.prems(3) by simp
    then have "fst (drainLoop r (s\<lparr>bk := b'\<rparr>) ys (af \<or> \<not> ok))"
      using Cons.prems by (intro Cons.IH) simp_all
    then show ?thesis using Cons.prems(1,2) p by simp
  qed
qed


lemma drainLoop_calls_exact:
  assumes "mountedRef s" and "isOnline s" and "\<forall>x\<in>set items. carriesRequest x"
  shows "\<exists>new. calls (bk (snd (drainLoop r s items af))) = calls (bk s) @ new \<and>
           map fst new = map item_id items"
  using assms
proof (induction items arbitrary: s af)
  case Nil
  then show ?case by simp
next
  case (Cons x xs)
  obtain ok b' where p: "processItem r (clock s) (bk s) x = (ok, b')"
    by (cases "processItem r (clock s) (bk s) x")
  obtain c where c: "requestOf (bk s) x = Some c"
    using requestOf_carries[of x "bk s"] Cons.prems(3) by auto
  have cb: "calls b' = calls (bk s) @ [(item_id x, c)]"
    using processItem_calls[of r "clock s" "bk s" x] p c by simp
  from Cons.IH[of "s\<lparr>bk := b'\<rparr>" "af \<or> \<not> ok"] Cons.prems
  obtain new where n: "calls (bk (snd (drainLoop r (s\<lparr>bk := b'\<rparr>) xs (af \<or> \<not> ok)))) = calls b' @ new"
    "map fst new = map item_id xs"
    by auto
  show ?case
    using Cons.prems(1,2) p n cb by (intro exI[of _ "(item_id x, c) # new"]) simp
qed

lemma drainLoop_preserves_serverId:
  assumes "\<forall>m\<in>set mid. action m = createProject \<or> action m = createFeature \<longrightarrow>
             pLocalId (payload m) \<noteq> l"
  shows "getServerIdByLocalId l (ideas (bk (snd (drainLoop r s mid af)))) =
         getServerIdByLocalId l (ideas (bk s))"
  using assms
proof (induction mid arbitrary: s af)
  case Nil
  then show ?case by simp
next
  case (Cons m ms)
  show ?case
  proof (cases "\<not> mountedRef s \<or> \<not> isOnline s")
    case True
    then show ?thesis by simp
  next
    case False
    obtain ok b' where p: "processItem r (clock s) (bk s) m = (ok, b')"
      by (cases "processItem r (clock s) (bk s) m")
    have "getServerIdByLocalId l (ideas b') = getServerIdByLocalId l (ideas (bk s))"
      using processItem_preserves_serverId[of m l r "clock s" "bk s"] Cons.prems p by simp
    moreover have "getServerIdByLocalId l (ideas (bk (snd (drainLoop r (s\<lparr>bk := b'\<rparr>) ms (af \<or> \<not> ok))))) =
          getServerIdByLocalId l (ideas (bk (s\<lparr>bk := b'\<rparr>)))"
      using Cons.prems by (intro Cons.IH) simp
    ultimately show ?thesis using False p by simp
  qed
qed

lemma drainLoop_localIds:
  "localId ` set (ideas (bk (snd (drainLoop r s items af)))) = localId ` set (ideas (bk s))"
proof (induction items arbitrary: s af)
  case Nil
  then show ?case by simp
next
  case (Cons m ms)
  show ?case
  proof (cases "\<not> mountedRef s \<or> \<not> isOnline s")
    case True
    then show ?thesis by simp
  next
    case False
    obtain ok b' where p: "processItem r (clock s) (bk s) m = (ok, b')"
      by (cases "processItem r (clock s) (bk s) m")
    have "localId ` set (ideas b') = localId ` set (ideas (bk s))"
      using processItem_localIds[of r "clock s" "bk s" m] p by simp
    moreover have "localId ` set (ideas (bk (snd (drainLoop r (s\<lparr>bk := b'\<rparr>) ms (af \<or> \<not> ok))))) =
          localId ` set (ideas (bk (s\<lparr>bk := b'\<rparr>)))"
      by (rule Cons.IH)
    ultimately show ?thesis using False p by simp
  qed
qed

lemma drainLoop_keeps_serverId_set:
  "getServerIdByLocalId l (ideas (bk s)) \<noteq> None \<Longrightarrow>
   getServerIdByLocalId l (ideas (bk (snd (drainLoop r s items af)))) \<noteq> None"
proof (induction items arbitrary: s af)
  case Nil
  then show ?case by simp
next
  case (Cons m ms)
  show ?case
  proof (cases "\<not> mountedRef s \<or> \<not> isOnline s")
    case True
    then show ?thesis using Cons.prems by simp
  next
    case False
    obtain ok b' where p: "processItem r (clock s) (bk s) m = (ok, b')"
      by (cases "processItem r (clock s) (bk s) m")
    have "getServerIdByLocalId l (ideas b') \<noteq> None"
      using processItem_keeps_serverId_set[OF Cons.prems, of r "clock s" m] p by simp
    then have "getServerIdByLocalId l (ideas (bk (snd (drainLoop r (s\<lparr>bk := b'\<rparr>) ms (af \<or> \<not> ok))))) \<noteq> None"
      by (intro Cons.IH) simp
    then show ?thesis using False p by simp
  qed
qed

lemma drainLoop_keeps_other:
  assumes "x \<in> set (outbox (bk s))"
    and "\<forall>m\<in>set items. item_id m \<noteq> item_id x \<and> pLocalId (payload m) \<noteq> pLocalId (payload x)"
  shows "x \<in> set (outbox (bk (snd (drainLoop r s items af))))"
  using assms
proof (induction items arbitrary: s af)
  case Nil
  then show ?case by simp
next
  case (Cons m ms)
  show ?case
  proof (cases "\<not> mountedRef s \<or> \<not> isOnline s")
    case True
    then show ?thesis using Cons.prems by simp
  next
    case False
    obtain ok b' where p: "processItem r (clock s) (bk s) m = (ok, b')"
      by (cases "processItem r (clock s) (bk s) m")
    have "x \<in> set (outbox b')"
      using processItem_keeps_other[of x "bk s" m r "clock s"] Cons.prems p by simp
    then have "x \<in> set (outbox (bk (snd (drainLoop r (s\<lparr>bk := b'\<rparr>) ms (af \<or> \<not> ok)))))"
      using Cons.prems(2) by (intro Cons.IH) simp_all
    then show ?thesis using False p by simp
  qed
qed

section \<open>Lemmas about a whole pass\<close>

lemma RETRY_DELAYS_last: "length RETRY_DELAYS - Suc 0 = 3"
  by (simp add: RETRY_DELAYS_def)

lemma afterLoop_failed:
  assumes "isOnline s" and "mountedRef s"
  shows "afterLoop True s =
           s\<lparr>currentRetryIndex := currentRetryIndex s + 1,
             timers := filter (\<lambda>x. Some (fst x) \<noteq> retryTimeoutId s) (timers s) @
                       [(nextTimerId s, RetryCallback, RETRY_DELAYS ! min (currentRetryIndex s) 3)],
             nextTimerId := Suc (nextTimerId s),
             retryTimeoutId := Some (nextTimerId s),
             isSyncing := False\<rparr>"
proof (cases "retryTimeoutId s")
  case None
  then show ?thesis using assms
    by (simp add: afterLoop_def setTimeout_def Let_def RETRY_DELAYS_last)
next
  case (Some t)
  have "(\<lambda>x. fst x \<noteq> t) = (\<lambda>x. t \<noteq> fst x)" by auto
  then show ?thesis using assms Some
    by (simp add: afterLoop_def setTimeout_def clearTimeout_def Let_def RETRY_DELAYS_last)
qed

lemma afterLoop_ok:
  "\<not> (af \<and> isOnline s \<and> mountedRef s) \<Longrightarrow>
   afterLoop af s = s\<lparr>currentRetryIndex := 0, isSyncing := False\<rparr>"
  by (auto simp: afterLoop_def)

lemma flushOutboxPass_ready:
  assumes "mountedRef s" and "isOnline s" and "\<not> isSyncing s"
  shows "flushOutboxPass r s =
           afterLoop (fst (drainLoop r (s\<lparr>isSyncing := True\<rparr>) (getOutboxItems (outbox (bk s))) False))
             (s\<lparr>isSyncing := True,
                bk := bk (snd (drainLoop r (s\<lparr>isSyncing := True\<rparr>)
                                (getOutboxItems (outbox (bk s))) False))\<rparr>)"
proof (cases "getOutboxItems (outbox (bk s)) = []")
  case True
  then show ?thesis using assms by (simp add: flushOutboxPass_def afterLoop_ok)
next
  case False
  obtain af s2 where d: "drainLoop r (s\<lparr>isSyncing := True\<rparr>) (getOutboxItems (outbox (bk s))) False = (af, s2)"
    by (cases "drainLoop r (s\<lparr>isSyncing := True\<rparr>) (getOutboxItems (outbox (bk s))) False")
  have "s2 = s\<lparr>isSyncing := True, bk := bk s2\<rparr>"
    using drainLoop_frame[of r "s\<lparr>isSyncing := True\<rparr>" "getOutboxItems (outbox (bk s))" False] d
    by simp
  then show ?thesis using assms False d by (simp add: flushOutboxPass_def Let_def)
qed

lemma afterLoop_bk: "bk (afterLoop af s) = bk s"
  by (auto simp: afterLoop_def setTimeout_def clearTimeout_def Let_def split: option.splits)

lemma flushOutboxPass_bk:
  assumes "mountedRef s" and "isOnline s" and "\<not> isSyncing s"
  shows "bk (flushOutboxPass r s) =
         bk (snd (drainLoop r (s\<lparr>isSyncing := True\<rparr>) (getOutboxItems (outbox (bk s))) False))"
  using flushOutboxPass_ready[OF assms, of r] by (simp add: afterLoop_bk)

lemma flushOutboxPass_failed:
  assumes "mountedRef s" and "isOnline s" and "\<not> isSyncing s" and "passAnyFailed r s"
  shows "currentRetryIndex (flushOutboxPass r s) = currentRetryIndex s + 1"
    and "retryTimeoutId (flushOutboxPass r s) = Some (nextTimerId s)"
    and "timers (flushOutboxPass r s) =
           filter (\<lambda>x. Some (fst x) \<noteq> retryTimeoutId s) (timers s) @
           [(nextTimerId s, RetryCallback, RETRY_DELAYS ! min (currentRetryIndex s) 3)]"
    and "mountedRef (flushOutboxPass r s)" and "isOnline (flushOutboxPass r s)"
    and "\<not> isSyncing (flushOutboxPass r s)"
proof -
  let ?d = "drainLoop r (s\<lparr>isSyncing := True\<rparr>) (getOutboxItems (outbox (bk s))) False"
  let ?s2 = "s\<lparr>isSyncing := True, bk := bk (snd ?d)\<rparr>"
  have "flushOutboxPass r s = afterLoop True ?s2"
    using flushOutboxPass_ready[OF assms(1-3), of r] assms(4) by (simp add: passAnyFailed_def)
  also have "\<dots> = ?s2
           \<lparr>currentRetryIndex := currentRetryIndex s + 1,
             timers := filter (\<lambda>x. Some (fst x) \<noteq> retryTimeoutId s) (timers s) @
                       [(nextTimerId s, RetryCallback, RETRY_DELAYS ! min (currentRetryIndex s) 3)],
             nextTimerId := Suc (nextTimerId s),
             retryTimeoutId := Some (nextTimerId s),
             isSyncing := False\<rparr>"
    using assms(1,2) by (subst afterLoop_failed) simp_all
  finally have e: "flushOutboxPass r s = ?s2
           \<lparr>currentRetryIndex := currentRetryIndex s + 1,
             timers := filter (\<lambda>x. Some (fst x) \<noteq> retryTimeoutId s) (timers s) @
                       [(nextTimerId s, RetryCallback, RETRY_DELAYS ! min (currentRetryIndex s) 3)],
             nextTimerId := Suc (nextTimerId s),
             retryTimeoutId := Some (nextTimerId s),
             isSyncing := False\<rparr>" .
  show "currentRetryIndex (flushOutboxPass r s) = currentRetryIndex s + 1"
    and "retryTimeoutId (flushOutboxPass r s) = Some (nextTimerId s)"
    and "timers (flushOutboxPass r s) =
           filter (\<lambda>x. Some (fst x) \<noteq> retryTimeoutId s) (timers s) @
           [(nextTimerId s, RetryCallback, RETRY_DELAYS ! min (currentRetryIndex s) 3)]"
    and "mountedRef (flushOutboxPass r s)" and "isOnline (flushOutboxPass r s)"
    and "\<not> isSyncing (flushOutboxPass r s)"
    unfolding e using assms(1,2) by simp_all
qed

lemma flushOutboxPass_ok:
  assumes "mountedRef s" and "isOnline s" and "\<not> isSyncing s" and "\<not> passAnyFailed r s"
  shows "currentRetryIndex (flushOutboxPass r s) = 0"
    and "timers (flushOutboxPass r s) = timers s"
    and "retryTimeoutId (flushOutboxPass r s) = retryTimeoutId s"
proof -
  let ?d = "drainLoop r (s\<lparr>isSyncing := True\<rparr>) (getOutboxItems (outbox (bk s))) False"
  let ?s2 = "s\<lparr>isSyncing := True, bk := bk (snd ?d)\<rparr>"
  have "flushOutboxPass r s = afterLoop False ?s2"
    using flushOutboxPass_ready[OF assms(1-3), of r] assms(4) by (simp add: passAnyFailed_def)
  then have e: "flushOutboxPass r s = ?s2\<lparr>currentRetryIndex := 0, isSyncing := False\<rparr>"
    by (simp add: afterLoop_ok)
  show "currentRetryIndex (flushOutboxPass r s) = 0"
    and "timers (flushOutboxPass r s) = timers s"
    and "retryTimeoutId (flushOutboxPass r s) = retryTimeoutId s"
    unfolding e by simp_all
qed

lemma consecutive_failed:
  assumes "mountedRef s" and "isOnline s" and "\<not> isSyncing s"
    and "\<forall>k<n. passAnyFailed r ((flushOutboxPass r ^^ k) s)"
  shows "mountedRef ((flushOutboxPass r ^^ n) s) \<and> isOnline ((flushOutboxPass r ^^ n) s) \<and>
         \<not> isSyncing ((flushOutboxPass r ^^ n) s) \<and>
         currentRetryIndex ((flushOutboxPass r ^^ n) s) = currentRetryIndex s + n"
  using assms(4)
proof (induction n)
  case 0
  then show ?case using assms(1-3) by simp
next
  case (Suc n)
  let ?sn = "(flushOutboxPass r ^^ n) s"
  have ih: "mountedRef ?sn" "isOnline ?sn" "\<not> isSyncing ?sn"
    "currentRetryIndex ?sn = currentRetryIndex s + n"
    using Suc by simp_all
  have f: "passAnyFailed r ?sn" using Suc.prems by simp
  show ?case
    using flushOutboxPass_failed[OF ih(1-3) f] ih(4) by simp
qed

lemma RETRY_DELAYS_values:
  "RETRY_DELAYS ! min 0 3 = 2000" "RETRY_DELAYS ! min 1 3 = 5000"
  "RETRY_DELAYS ! min 2 3 = 10000" "3 \<le> k \<Longrightarrow> RETRY_DELAYS ! min k 3 = 30000"
  by (simp_all add: RETRY_DELAYS_def min_def numeral_3_eq_3)

lemma handle_keeps_outbox:
  assumes "\<forall>i. ev \<noteq> Resume i" and "x \<in> set (outbox (bk s))"
  shows "x \<in> set (outbox (bk (handle r ev s)))"
  using assms
  by (cases ev)
     (auto simp: handle_def mount_def unmount_def handleConnectivityChange_def
        handleAppStateChange_def triggerSync_def syncNow_def fireTimer_def flushOutbox_def
        setTimeout_def clearTimeout_def enqueueOutbox_def Let_def
        split: option.splits timer_callback.splits if_splits)

lemma resume_bk:
  "bk (handle r (Resume i) s) =
     (if i < length (passes s)
      then case passes s ! i of
             Fetching \<Rightarrow> bk s
           | Looping items af \<Rightarrow>
               (case items of
                  [] \<Rightarrow> bk s
                | m # ms \<Rightarrow>
                    if mountedRef s \<and> isOnline s
                    then snd (processItem r (clock s) (bk s) m) else bk s)
      else bk s)"
  by (auto simp: handle_def resumePass_def dropPass_def afterLoop_bk Let_def
        split: pass.splits list.splits prod.splits)

section \<open>Order of a drain pass\<close>

text \<open>
  Claim C1. \<open>getOutboxItems\<close> returns all the outbox rows, each once, in ascending
  order of \<open>createdAt\<close> (strictly ascending when the timestamps are distinct), and
  when the rows were enqueued with strictly increasing timestamps that is the order of
  the enqueues. A pass that starts online, mounted and idle, and is not interrupted,
  sends its requests one item at a time in the order of that list: the entry ids of the
  requests it adds to the log form a subsequence of the list's entry ids, and they are
  exactly the list's entry ids, in order, when every item is one for which a request is
  sent.
\<close>

theorem drain_pass_fifo:
  assumes "mountedRef s" and "isOnline s" and "\<not> isSyncing s"
  shows "sorted (map createdAt (getOutboxItems (outbox (bk s)))) \<and>
         mset (getOutboxItems (outbox (bk s))) = mset (outbox (bk s)) \<and>
         (distinct (map createdAt (outbox (bk s))) \<longrightarrow>
            sorted_wrt (<) (map createdAt (getOutboxItems (outbox (bk s))))) \<and>
         (sorted_wrt (<) (map createdAt (outbox (bk s))) \<longrightarrow>
            getOutboxItems (outbox (bk s)) = outbox (bk s)) \<and>
         (\<exists>new. calls (bk (flushOutboxPass r s)) = calls (bk s) @ new \<and>
                subseq (map fst new) (map item_id (getOutboxItems (outbox (bk s)))) \<and>
                ((\<forall>x\<in>set (outbox (bk s)). carriesRequest x) \<longrightarrow>
                   map fst new = map item_id (getOutboxItems (outbox (bk s)))))"
proof -
  let ?ob = "outbox (bk s)"
  let ?items = "getOutboxItems ?ob"
  let ?s1 = "s\<lparr>isSyncing := True\<rparr>"
  have 1: "sorted (map createdAt ?items)"
    by (simp add: getOutboxItems_def)
  have 2: "mset ?items = mset ?ob"
    by (simp add: getOutboxItems_def)
  have "mset (map createdAt ?items) = mset (map createdAt ?ob)"
    using 2 by (metis mset_map)
  then have "distinct (map createdAt ?items) = distinct (map createdAt ?ob)"
    by (rule mset_eq_imp_distinct_iff)
  then have 3: "distinct (map createdAt ?ob) \<Longrightarrow> sorted_wrt (<) (map createdAt ?items)"
    using 1 by (simp add: strict_sorted_iff)
  have 4: "sorted_wrt (<) (map createdAt ?ob) \<Longrightarrow> ?items = ?ob"
    unfolding getOutboxItems_def
    by (intro sort_key_id_if_sorted) (simp add: strict_sorted_iff)
  have b: "bk (flushOutboxPass r s) = bk (snd (drainLoop r ?s1 ?items False))"
    using assms by (rule flushOutboxPass_bk)
  from drainLoop_calls[of r ?s1 ?items False]
  obtain new where n: "calls (bk (snd (drainLoop r ?s1 ?items False))) = calls (bk s) @ new"
    "subseq (map fst new) (map item_id ?items)"
    by auto
  have 5: "map fst new = map item_id ?items" if "\<forall>x\<in>set ?ob. carriesRequest x"
  proof -
    have "\<forall>x\<in>set ?items. carriesRequest x"
      using that by (simp add: getOutboxItems_def)
    from drainLoop_calls_exact[of ?s1 ?items r False] this assms(1,2)
    obtain new' where "calls (bk (snd (drainLoop r ?s1 ?items False))) = calls (bk s) @ new'"
      "map fst new' = map item_id ?items"
      by auto
    then show ?thesis using n(1) by simp
  qed
  have "calls (bk (flushOutboxPass r s)) = calls (bk s) @ new"
    using b n(1) by simp
  with 1 2 3 4 5 n(2) show ?thesis by blast
qed


theorem drain_pass_fifo_witness:
  "mountedRef (readyEngine (sampleBackend []
       [sampleItem ''e2'' createProject (samplePayload ''L2'' None None) 6 0,
        sampleItem ''e1'' createProject (samplePayload ''L1'' None None) 5 0])) \<and>
   isOnline (readyEngine (sampleBackend []
       [sampleItem ''e2'' createProject (samplePayload ''L2'' None None) 6 0,
        sampleItem ''e1'' createProject (samplePayload ''L1'' None None) 5 0])) \<and>
   \<not> isSyncing (readyEngine (sampleBackend []
       [sampleItem ''e2'' createProject (samplePayload ''L2'' None None) 6 0,
        sampleItem ''e1'' createProject (samplePayload ''L1'' None None) 5 0])) \<and>
   carriesRequest (sampleItem ''e2'' createProject (samplePayload ''L2'' None None) 6 0) \<and>
   carriesRequest (sampleItem ''e1'' createProject (samplePayload ''L1'' None None) 5 0) \<and>
   map item_id (getOutboxItems
       [sampleItem ''e2'' createProject (samplePayload ''L2'' None None) 6 0,
        sampleItem ''e1'' createProject (samplePayload ''L1'' None None) 5 0]) = [''e1'', ''e2''] \<and>
   map fst (calls (bk (flushOutboxPass remoteUp (readyEngine (sampleBackend []
       [sampleItem ''e2'' createProject (samplePayload ''L2'' None None) 6 0,
        sampleItem ''e1'' createProject (samplePayload ''L1'' None None) 5 0]))))) =
     [''e1'', ''e2'']"
proof -
  let ?x = "sampleItem ''e2'' createProject (samplePayload ''L2'' None None) 6 0"
  let ?y = "sampleItem ''e1'' createProject (samplePayload ''L1'' None None) 5 0"
  let ?s = "readyEngine (sampleBackend [] [?x, ?y])"
  have ready: "mountedRef ?s" "isOnline ?s" "\<not> isSyncing ?s"
    by (simp_all add: readyEngine_def initEngine_def)
  have cr: "carriesRequest ?x" "carriesRequest ?y"
    by (simp_all add: carriesRequest_def sampleItem_def)
  have ob: "outbox (bk ?s) = [?x, ?y]" "calls (bk ?s) = []"
    by (simp_all add: readyEngine_def initEngine_def sampleBackend_def)
  have g: "map item_id (getOutboxItems [?x, ?y]) = [''e1'', ''e2'']"
    by (simp add: getOutboxItems_def sampleItem_def)
  from drain_pass_fifo[where r = remoteUp, OF ready] cr
  have "map fst (calls (bk (flushOutboxPass remoteUp ?s))) = [''e1'', ''e2'']"
    unfolding ob using g by auto
  with ready cr g show ?thesis
    by simp
qed

section \<open>Parent resolution within a pass\<close>

text \<open>
  Claim C3, as the code has it. In an uninterrupted pass, let a \<open>createProject\<close> item
  for \<open>localId\<close> A be resolved by the remote service with server identifier \<open>sid\<close>,
  and let a \<open>createFeature\<close> item come later whose payload names A as
  \<open>parentProjectLocalId\<close> and has no \<open>parentProjectServerId\<close>. When A is a non-empty
  string that has a row in the ideas table, the request sent for the feature carries a
  server identifier as parent, and it is \<open>sid\<close> when no other create for A lies between
  the two items. When A has no row in the ideas table (\<open>markIdeaSynced\<close> is an UPDATE
  by \<open>localId\<close>, and the UI deletes the row of a project whose create may be pending) or
  A is the empty string, the request for the feature is sent with no parent. In general
  \<open>processItem\<close> on a \<open>createFeature\<close> item sends one \<open>createFeature\<close> request, whose
  parent is the payload's \<open>parentProjectServerId\<close> when that is not null, else the
  \<open>serverId\<close> stored for a truthy \<open>parentProjectLocalId\<close>, else none; the item fails
  only when the service rejects that request, and is marked synced when it resolves.
\<close>

theorem parent_resolution:
  assumes "mountedRef s" and "isOnline s"
    and "action x = createProject"
    and "r (map snd (calls (bk s))) (CreateProject (pContent (payload x))) = Inr sid"
    and "action y = createFeature"
    and "pParentProjectServerId (payload y) = None"
    and "pParentProjectLocalId (payload y) = Some (pLocalId (payload x))"
  shows "(truthy (pLocalId (payload x)) \<and> pLocalId (payload x) \<in> localId ` set (ideas (bk s)) \<longrightarrow>
            (\<exists>before sid'.
               calls (bk (snd (drainLoop r s (x # mid @ [y]) af))) =
                 before @ [(item_id y,
                            CreateFeature (pContent (payload y)) (Some sid')
                              (case pStatus (payload y) of None \<Rightarrow> ''INBOX'' | Some st \<Rightarrow> st))] \<and>
               ((\<forall>m\<in>set mid. action m = createProject \<or> action m = createFeature \<longrightarrow>
                    pLocalId (payload m) \<noteq> pLocalId (payload x)) \<longrightarrow> sid' = sid))) \<and>
         (\<not> truthy (pLocalId (payload x)) \<or> pLocalId (payload x) \<notin> localId ` set (ideas (bk s)) \<longrightarrow>
            (\<exists>before.
               calls (bk (snd (drainLoop r s (x # mid @ [y]) af))) =
                 before @ [(item_id y,
                            CreateFeature (pContent (payload y)) None
                              (case pStatus (payload y) of None \<Rightarrow> ''INBOX'' | Some st \<Rightarrow> st))])) \<and>
         (action z = createFeature \<longrightarrow>
            processItem r now b z =
              (let c = CreateFeature (pContent (payload z))
                         (case pParentProjectServerId (payload z) of
                            Some v \<Rightarrow> Some v
                          | None \<Rightarrow>
                              (case pParentProjectLocalId (payload z) of
                                 None \<Rightarrow> None
                               | Some l \<Rightarrow>
                                   if truthy l then getServerIdByLocalId l (ideas b) else None))
                         (case pStatus (payload z) of None \<Rightarrow> ''INBOX'' | Some st \<Rightarrow> st);
                   b1 = b\<lparr>calls := calls b @ [(item_id z, c)]\<rparr>
               in case r (map snd (calls b)) c of
                    Inr sid' \<Rightarrow>
                      (True, b1\<lparr>ideas := markIdeaSynced (pLocalId (payload z)) sid' now (ideas b),
                                outbox := removeOutboxByLocalId (pLocalId (payload z)) (outbox b)\<rparr>)
                  | Inl e \<Rightarrow> catchBlock z e b1))"
proof -
  let ?A = "pLocalId (payload x)"
  let ?st = "case pStatus (payload y) of None \<Rightarrow> ''INBOX'' | Some st \<Rightarrow> st"
  let ?c = "\<lambda>parent. CreateFeature (pContent (payload y)) parent ?st"
  define b1 where "b1 = snd (processItem r (clock s) (bk s) x)"
  have rq: "requestOf (bk s) x = Some (CreateProject (pContent (payload x)))"
    using assms(3) by (simp add: requestOf_def)
  note p = processItem_resolved[where r = r and now = "clock s", OF rq assms(4)]
  have pb: "processItem r (clock s) (bk s) x = (True, b1)"
    by (simp add: b1_def p)
  have ids1: "localId ` set (ideas b1) = localId ` set (ideas (bk s))"
    unfolding b1_def by (rule processItem_localIds)
  let ?s1 = "s\<lparr>bk := b1\<rparr>"
  have live1: "mountedRef ?s1" "isOnline ?s1" using assms(1,2) by simp_all
  obtain af2 s2 where d2: "drainLoop r ?s1 mid af = (af2, s2)"
    by (cases "drainLoop r ?s1 mid af")
  have live2: "mountedRef s2" "isOnline s2"
    using drainLoop_live[OF d2] live1 by simp_all
  have ids2: "localId ` set (ideas (bk s2)) = localId ` set (ideas (bk s))"
    using drainLoop_localIds[of r ?s1 mid af] d2 ids1 by simp
  have "drainLoop r s (x # mid @ [y]) af = drainLoop r ?s1 (mid @ [y]) af"
    using assms(1,2) pb by simp
  also have "\<dots> = drainLoop r s2 [y] af2"
    using drainLoop_append[OF live1, of r mid "[y]" af] d2 by simp
  finally have d: "drainLoop r s (x # mid @ [y]) af = drainLoop r s2 [y] af2" .
  have sent: "calls (bk (snd (drainLoop r s (x # mid @ [y]) af))) =
                calls (bk s2) @ [(item_id y, ?c parent)]"
    if "resolveParentServerId (payload y) (bk s2) = parent" for parent
  proof -
    have "requestOf (bk s2) y = Some (?c parent)"
      using assms(5) that by (simp add: requestOf_def Let_def)
    then show ?thesis
      unfolding d using live2 processItem_calls[of r "clock s2" "bk s2" y]
      by (cases "processItem r (clock s2) (bk s2) y") simp
  qed
  have 1: "\<exists>before sid'.
               calls (bk (snd (drainLoop r s (x # mid @ [y]) af))) =
                 before @ [(item_id y, ?c (Some sid'))] \<and>
               ((\<forall>m\<in>set mid. action m = createProject \<or> action m = createFeature \<longrightarrow>
                    pLocalId (payload m) \<noteq> ?A) \<longrightarrow> sid' = sid)"
    if t: "truthy ?A" and mem: "?A \<in> localId ` set (ideas (bk s))"
  proof -
    have sid1: "getServerIdByLocalId ?A (ideas b1) = Some sid"
      using assms(3) mem by (simp add: b1_def p getServerId_markSynced_same)
    have "getServerIdByLocalId ?A (ideas (bk s2)) \<noteq> None"
      using drainLoop_keeps_serverId_set[of ?A ?s1 r mid af] d2 sid1 by simp
    then obtain sid' where sid': "getServerIdByLocalId ?A (ideas (bk s2)) = Some sid'"
      by auto
    have "resolveParentServerId (payload y) (bk s2) = Some sid'"
      using assms(6,7) t sid' by (simp add: resolveParentServerId_def)
    then have c: "calls (bk (snd (drainLoop r s (x # mid @ [y]) af))) =
                calls (bk s2) @ [(item_id y, ?c (Some sid'))]"
      by (rule sent)
    have "sid' = sid"
      if "\<forall>m\<in>set mid. action m = createProject \<or> action m = createFeature \<longrightarrow>
             pLocalId (payload m) \<noteq> ?A"
      using drainLoop_preserves_serverId[OF that, of r ?s1 af] d2 sid1 sid' by simp
    then show ?thesis using c by blast
  qed
  have 2: "\<exists>before.
               calls (bk (snd (drainLoop r s (x # mid @ [y]) af))) =
                 before @ [(item_id y, ?c None)]"
    if "\<not> truthy ?A \<or> ?A \<notin> localId ` set (ideas (bk s))"
  proof -
    have "\<not> truthy ?A \<or> getServerIdByLocalId ?A (ideas (bk s2)) = None"
      using that ids2 getServerId_absent[of ?A "ideas (bk s2)"] by auto
    then have "resolveParentServerId (payload y) (bk s2) = None"
      using assms(6,7) by (auto simp: resolveParentServerId_def)
    then have "calls (bk (snd (drainLoop r s (x # mid @ [y]) af))) =
                calls (bk s2) @ [(item_id y, ?c None)]"
      by (rule sent)
    then show ?thesis by blast
  qed
  note 3 = processItem_createFeature[of z r now b]
  show ?thesis
    using 1 2 3 by (intro conjI impI) blast+
qed

theorem parent_resolution_witness:
  "action (sampleItem ''e1'' createProject (samplePayload ''L1'' None None) 5 0) = createProject \<and>
   truthy ''L1'' \<and>
   ''L1'' \<in> localId ` set [sampleIdea ''L1'' None] \<and>
   remoteUp [] (CreateProject (Some ''Ship v1'')) = Inr ''srv_1'' \<and>
   action (sampleItem ''e2'' createFeature (samplePayload ''L2'' None (Some ''L1'')) 6 0) =
     createFeature \<and>
   pParentProjectLocalId (samplePayload ''L2'' None (Some ''L1'')) = Some ''L1'' \<and>
   pParentProjectServerId (samplePayload ''L2'' None (Some ''L1'')) = None \<and>
   calls (bk (snd (drainLoop remoteUp
      (readyEngine (sampleBackend [sampleIdea ''L1'' None]
         [sampleItem ''e1'' createProject (samplePayload ''L1'' None None) 5 0,
          sampleItem ''e2'' createFeature (samplePayload ''L2'' None (Some ''L1'')) 6 0]))
      [sampleItem ''e1'' createProject (samplePayload ''L1'' None None) 5 0,
       sampleItem ''e2'' createFeature (samplePayload ''L2'' None (Some ''L1'')) 6 0] False))) =
     [(''e1'', CreateProject (Some ''Ship v1'')),
      (''e2'', CreateFeature (Some ''Ship v1'') (Some ''srv_1'') ''DONE'')] \<and>
   localId ` set (ideas (sampleBackend []
         [sampleItem ''e1'' createProject (samplePayload ''L1'' None None) 5 0,
          sampleItem ''e2'' createFeature (samplePayload ''L2'' None (Some ''L1'')) 6 0])) = {} \<and>
   calls (bk (snd (drainLoop remoteUp
      (readyEngine (sampleBackend []
         [sampleItem ''e1'' createProject (samplePayload ''L1'' None None) 5 0,
          sampleItem ''e2'' createFeature (samplePayload ''L2'' None (Some ''L1'')) 6 0]))
      [sampleItem ''e1'' createProject (samplePayload ''L1'' None None) 5 0,
       sampleItem ''e2'' createFeature (samplePayload ''L2'' None (Some ''L1'')) 6 0] False))) =
     [(''e1'', CreateProject (Some ''Ship v1'')),
      (''e2'', CreateFeature (Some ''Ship v1'') None ''DONE'')]"
proof -
  let ?x = "sampleItem ''e1'' createProject (samplePayload ''L1'' None None) 5 0"
  let ?y = "sampleItem ''e2'' createFeature (samplePayload ''L2'' None (Some ''L1'')) 6 0"
  let ?s = "readyEngine (sampleBackend [sampleIdea ''L1'' None] [?x, ?y])"
  let ?s' = "readyEngine (sampleBackend [] [?x, ?y])"
  have h12: "mountedRef ?s" "isOnline ?s" and h12': "mountedRef ?s'" "isOnline ?s'"
    by (simp_all add: readyEngine_def initEngine_def)
  have h3: "action ?x = createProject" and h5: "action ?y = createFeature"
    by (simp_all add: sampleItem_def)
  have l: "pLocalId (payload ?x) = ''L1''" "pContent (payload ?x) = Some ''Ship v1''"
    by (simp_all add: sampleItem_def samplePayload_def)
  have t: "truthy ''L1''"
    by (simp add: truthy_def)
  have m: "''L1'' \<in> localId ` set [sampleIdea ''L1'' None]"
    by (simp add: sampleIdea_def)
  have m1: "ideas (bk ?s) = [sampleIdea ''L1'' None]"
    by (simp add: readyEngine_def initEngine_def sampleBackend_def)
  have m2: "ideas (bk ?s') = []" "ideas (sampleBackend [] [?x, ?y]) = []"
    by (simp_all add: readyEngine_def initEngine_def sampleBackend_def)
  have r0: "remoteUp [] (CreateProject (Some ''Ship v1'')) = Inr ''srv_1''"
    by (simp add: remoteUp_def)
  have h4: "remoteUp (map snd (calls (bk ?s))) (CreateProject (pContent (payload ?x))) = Inr ''srv_1''"
    and h4': "remoteUp (map snd (calls (bk ?s'))) (CreateProject (pContent (payload ?x))) = Inr ''srv_1''"
    unfolding l using r0 by (simp_all add: readyEngine_def initEngine_def sampleBackend_def)
  have p6: "pParentProjectServerId (samplePayload ''L2'' None (Some ''L1'')) = None"
    and p7: "pParentProjectLocalId (samplePayload ''L2'' None (Some ''L1'')) = Some ''L1''"
    by (simp_all add: samplePayload_def)
  have h6: "pParentProjectServerId (payload ?y) = None"
    and h7: "pParentProjectLocalId (payload ?y) = Some (pLocalId (payload ?x))"
    unfolding l using p6 p7 by (simp_all add: sampleItem_def)
  have ev: "calls (bk (snd (drainLoop remoteUp ?s [?x, ?y] False))) =
     [(''e1'', CreateProject (Some ''Ship v1'')),
      (''e2'', CreateFeature (Some ''Ship v1'') (Some ''srv_1'') ''DONE'')]"
    by (simp add: sampleIdea_def samplePayload_def sampleItem_def sampleBackend_def
          readyEngine_def initEngine_def remoteUp_def processItem_def invoke_def
          markIdeaSynced_def removeOutboxByLocalId_def resolveParentServerId_def
          getServerIdByLocalId_def truthy_def Let_def)
  have ev': "calls (bk (snd (drainLoop remoteUp ?s' [?x, ?y] False))) =
     [(''e1'', CreateProject (Some ''Ship v1'')),
      (''e2'', CreateFeature (Some ''Ship v1'') None ''DONE'')]"
    by (simp add: sampleIdea_def samplePayload_def sampleItem_def sampleBackend_def
          readyEngine_def initEngine_def remoteUp_def processItem_def invoke_def
          markIdeaSynced_def removeOutboxByLocalId_def resolveParentServerId_def
          getServerIdByLocalId_def truthy_def Let_def)
  from parent_resolution[where r = remoteUp and mid = "[]" and af = False and s = ?s,
      OF h12 h3 h4 h5 h6 h7]
    parent_resolution[where r = remoteUp and mid = "[]" and af = False and s = ?s',
      OF h12' h3 h4' h5 h6 h7]
    h3 t m r0 h5 p6 p7 ev ev' m2
  show ?thesis
    by simp
qed

text \<open>
  The claim as it was stated fails. Offline, the user creates a project and a feature
  under it and deletes the project; back online, one pass resolves the
  \<open>createProject\<close> item, the UPDATE of \<open>markIdeaSynced\<close> finds no row, and the
  \<open>createFeature\<close> request of the same pass is sent with no parent.
\<close>

theorem orphan_feature_sent_without_parent:
  "bk (run remoteUp
         [Mount, Resume 0, ConnectivityChange (Some False),
          UiInsertIdea ''L1'' ''Ship v1'' PROJECT None None,
          UiEnqueue ''e1'' createProject (samplePayload ''L1'' None None),
          Tick 1,
          UiInsertIdea ''L2'' ''Ship v1'' FEATURE (Some ''L1'') None,
          UiEnqueue ''e2'' createFeature (samplePayload ''L2'' None (Some ''L1'')),
          Tick 1,
          UiDeleteIdea ''L1'',
          UiEnqueue ''e3'' deleteIdea (samplePayload ''L1'' None None),
          ConnectivityChange (Some True), Resume 0]
         (initEngine (sampleBackend [] []) 0)) =
     \<lparr>ideas = [\<lparr>localId = ''L2'', serverId = None, content = ''Ship v1'', ideaType = FEATURE,
                parentProjectLocalId = Some ''L1'', parentProjectServerId = None,
                status = INBOX, archived = False, ideaCreatedAt = 1, updatedAt = 1\<rparr>],
      outbox = [sampleItem ''e1'' createProject (samplePayload ''L1'' None None) 0 0,
                sampleItem ''e2'' createFeature (samplePayload ''L2'' None (Some ''L1'')) 1 0,
                sampleItem ''e3'' deleteIdea (samplePayload ''L1'' None None) 2 0],
      calls = []\<rparr> \<and>
   passes (run remoteUp
         [Mount, Resume 0, ConnectivityChange (Some False),
          UiInsertIdea ''L1'' ''Ship v1'' PROJECT None None,
          UiEnqueue ''e1'' createProject (samplePayload ''L1'' None None),
          Tick 1,
          UiInsertIdea ''L2'' ''Ship v1'' FEATURE (Some ''L1'') None,
          UiEnqueue ''e2'' createFeature (samplePayload ''L2'' None (Some ''L1'')),
          Tick 1,
          UiDeleteIdea ''L1'',
          UiEnqueue ''e3'' deleteIdea (samplePayload ''L1'' None None),
          ConnectivityChange (Some True), Resume 0]
         (initEngine (sampleBackend [] []) 0)) =
     [Looping [sampleItem ''e1'' createProject (samplePayload ''L1'' None None) 0 0,
               sampleItem ''e2'' createFeature (samplePayload ''L2'' None (Some ''L1'')) 1 0,
               sampleItem ''e3'' deleteIdea (samplePayload ''L1'' None None) 2 0] False] \<and>
   remoteUp [] (CreateProject (Some ''Ship v1'')) = Inr ''srv_1'' \<and>
   calls (bk (run remoteUp
         [Mount, Resume 0, ConnectivityChange (Some False),
          UiInsertIdea ''L1'' ''Ship v1'' PROJECT None None,
          UiEnqueue ''e1'' createProject (samplePayload ''L1'' None None),
          Tick 1,
          UiInsertIdea ''L2'' ''Ship v1'' FEATURE (Some ''L1'') None,
          UiEnqueue ''e2'' createFeature (samplePayload ''L2'' None (Some ''L1'')),
          Tick 1,
          UiDeleteIdea ''L1'',
          UiEnqueue ''e3'' deleteIdea (samplePayload ''L1'' None None),
          ConnectivityChange (Some True), Resume 0, Resume 0, Resume 0, Resume 0, Resume 0]
         (initEngine (sampleBackend [] []) 0))) =
     [(''e1'', CreateProject (Some ''Ship v1'')),
      (''e2'', CreateFeature (Some ''Ship v1'') None ''DONE'')] \<and>
   passes (run remoteUp
         [Mount, Resume 0, ConnectivityChange (Some False),
          UiInsertIdea ''L1'' ''Ship v1'' PROJECT None None,
          UiEnqueue ''e1'' createProject (samplePayload ''L1'' None None),
          Tick 1,
          UiInsertIdea ''L2'' ''Ship v1'' FEATURE (Some ''L1'') None,
          UiEnqueue ''e2'' createFeature (samplePayload ''L2'' None (Some ''L1'')),
          Tick 1,
          UiDeleteIdea ''L1'',
          UiEnqueue ''e3'' deleteIdea (samplePayload ''L1'' None None),
          ConnectivityChange (Some True), Resume 0, Resume 0, Resume 0, Resume 0, Resume 0]
         (initEngine (sampleBackend [] []) 0)) = [] \<and>
   outbox (bk (run remoteUp
         [Mount, Resume 0, ConnectivityChange (Some False),
          UiInsertIdea ''L1'' ''Ship v1'' PROJECT None None,
          UiEnqueue ''e1'' createProject (samplePayload ''L1'' None None),
          Tick 1,
          UiInsertIdea ''L2'' ''Ship v1'' FEATURE (Some ''L1'') None,
          UiEnqueue ''e2'' createFeature (samplePayload ''L2'' None (Some ''L1'')),
          Tick 1,
          UiDeleteIdea ''L1'',
          UiEnqueue ''e3'' deleteIdea (samplePayload ''L1'' None None),
          ConnectivityChange (Some True), Resume 0, Resume 0, Resume 0, Resume 0, Resume 0]
         (initEngine (sampleBackend [] []) 0))) = []"
  by (simp add: machine_eval remoteUp_def enqueueOutbox_def insertIdeaLocal_def
        deleteIdeaLocal_def resolveParentServerId_def)

section \<open>Items with no server identifier\<close>

text \<open>
  Claim C5. An \<open>updateStatus\<close>, \<open>archiveIdea\<close> or \<open>deleteIdea\<close> item whose payload has no
  \<open>serverId\<close> and whose \<open>localId\<close> has no \<open>serverId\<close> in the ideas table is processed
  by deleting the outbox rows with the item's own entry id and nothing else: the log of
  remote requests and the ideas table are as before, every other outbox row is the row
  it was (so no \<open>attemptCount\<close> is incremented and no \<open>lastError\<close> is written),
  \<open>processItem\<close> returns true, and an iteration of the drain loop on the item leaves
  \<open>anyFailed\<close> as it was.
\<close>

theorem missing_serverId_noop:
  assumes "action item = updateStatus \<or> action item = archiveIdea \<or> action item = deleteIdea"
    and "pServerId (payload item) = None"
    and "getServerIdByLocalId (pLocalId (payload item)) (ideas (bk s)) = None"
    and "mountedRef s" and "isOnline s"
  shows "processItem r (clock s) (bk s) item =
           (True, (bk s)\<lparr>outbox := filter (\<lambda>x. item_id x \<noteq> item_id item) (outbox (bk s))\<rparr>) \<and>
         drainLoop r s [item] anyFailed =
           (anyFailed,
            s\<lparr>bk := (bk s)\<lparr>outbox := filter (\<lambda>x. item_id x \<noteq> item_id item) (outbox (bk s))\<rparr>\<rparr>)"
proof -
  have req: "requestOf (bk s) item = None"
    using assms(1-3) by (auto simp: requestOf_def resolveServerId_def)
  have upd: "action item \<noteq> updateIdea" using assms(1) by auto
  have p: "processItem r (clock s) (bk s) item =
           (True, (bk s)\<lparr>outbox := filter (\<lambda>x. item_id x \<noteq> item_id item) (outbox (bk s))\<rparr>)"
    using processItem_no_request[OF req, of r "clock s"] upd by (simp add: removeOutboxById_def)
  show ?thesis using p assms(4,5) by simp
qed

theorem missing_serverId_noop_witness:
  "drainLoop remoteUp
     (readyEngine \<lparr>ideas = [sampleIdea ''L1'' None],
                   outbox = [sampleItem ''e1'' updateStatus (samplePayload ''L1'' None None) 5 0,
                             sampleItem ''e2'' archiveIdea (samplePayload ''L1'' None None) 6 3],
                   calls = []\<rparr>)
     [sampleItem ''e1'' updateStatus (samplePayload ''L1'' None None) 5 0] False =
   (False,
    readyEngine \<lparr>ideas = [sampleIdea ''L1'' None],
                  outbox = [sampleItem ''e2'' archiveIdea (samplePayload ''L1'' None None) 6 3],
                  calls = []\<rparr>)"
  using missing_serverId_noop[of "sampleItem ''e1'' updateStatus (samplePayload ''L1'' None None) 5 0"
      "readyEngine \<lparr>ideas = [sampleIdea ''L1'' None],
                   outbox = [sampleItem ''e1'' updateStatus (samplePayload ''L1'' None None) 5 0,
                             sampleItem ''e2'' archiveIdea (samplePayload ''L1'' None None) 6 3],
                   calls = []\<rparr>" remoteUp False]
  by (simp add: sampleItem_def samplePayload_def sampleIdea_def readyEngine_def initEngine_def
        getServerIdByLocalId_def)


section \<open>The retry ceiling\<close>






section \<open>Failures do not stop the pass\<close>

text \<open>
  Claim C7, as the code has it. In a pass that stays online and mounted, let the loop
  have worked through the items \<open>pre\<close> and let the request for the next item \<open>x\<close> be
  rejected while the \<open>attemptCount\<close> of \<open>x\<close> is below the ceiling. Then \<open>processItem\<close>
  returns false for \<open>x\<close>; the loop goes on and runs an iteration for every item of
  \<open>rest\<close>, with \<open>anyFailed\<close> set, and the pass ends with \<open>anyFailed\<close> true; handling
  the failure logs the one rejected request, leaves the ideas table alone and removes no
  outbox row; and, the \<open>localId\<close> of the payload being a non-empty string, every
  outbox row with that \<open>localId\<close> (the row of \<open>x\<close> among them) is in the outbox right
  after the failure with its \<open>attemptCount\<close> one higher and \<open>lastError\<close> set to the
  error's message (\<open>Sync failed\<close> when the error has none). At the end of the pass
  the row that the pass read as \<open>x\<close> is in the outbox with \<open>attemptCount\<close> one higher
  and that \<open>lastError\<close>, when no other item of the pass has the \<open>localId\<close> or the entry
  id of \<open>x\<close>.
\<close>

theorem failure_independence:
  assumes "mountedRef s0" and "isOnline s0"
    and "drainLoop r s0 pre af0 = (af1, s1)"
    and "requestOf (bk s1) x = Some c"
    and "r (map snd (calls (bk s1))) c = Inl e"
    and "attemptCount x < 10"
  shows "\<exists>b'. processItem r (clock s1) (bk s1) x = (False, b') \<and>
           drainLoop r s0 (pre @ x # rest) af0 = foldl (iteration r) (True, s1\<lparr>bk := b'\<rparr>) rest \<and>
           fst (drainLoop r s0 (pre @ x # rest) af0) \<and>
           calls b' = calls (bk s1) @ [(item_id x, c)] \<and>
           ideas b' = ideas (bk s1) \<and>
           length (outbox b') = length (outbox (bk s1)) \<and>
           (truthy (pLocalId (payload x)) \<longrightarrow>
              (\<forall>y\<in>set (outbox (bk s1)). pLocalId (payload y) = pLocalId (payload x) \<longrightarrow>
                 y\<lparr>attemptCount := attemptCount y + 1,
                   lastError := Some (case e of None \<Rightarrow> ''Sync failed'' | Some m \<Rightarrow> m)\<rparr>
                 \<in> set (outbox b'))) \<and>
           (truthy (pLocalId (payload x)) \<and> x \<in> set (outbox (bk s0)) \<and>
            (\<forall>m\<in>set (pre @ rest).
               item_id m \<noteq> item_id x \<and> pLocalId (payload m) \<noteq> pLocalId (payload x)) \<longrightarrow>
              x\<lparr>attemptCount := attemptCount x + 1,
                lastError := Some (case e of None \<Rightarrow> ''Sync failed'' | Some m \<Rightarrow> m)\<rparr>
              \<in> set (outbox (bk (snd (drainLoop r s0 (pre @ x # rest) af0)))))"
proof -
  define b' where "b' = snd (processItem r (clock s1) (bk s1) x)"
  let ?x' = "x\<lparr>attemptCount := attemptCount x + 1,
                lastError := Some (case e of None \<Rightarrow> ''Sync failed'' | Some m \<Rightarrow> m)\<rparr>"
  have p: "processItem r (clock s1) (bk s1) x =
             catchBlock x e ((bk s1)\<lparr>calls := calls (bk s1) @ [(item_id x, c)]\<rparr>)"
    using assms(4,5) by (rule processItem_rejected)
  have low: "\<not> MAX_RETRY_ATTEMPTS \<le> attemptCount x"
    using assms(6) by (simp add: MAX_RETRY_ATTEMPTS_def)
  have pb: "processItem r (clock s1) (bk s1) x = (False, b')"
    by (simp add: b'_def p catchBlock_result low)
  have live: "mountedRef s1" "isOnline s1"
    using drainLoop_live[OF assms(3)] assms(1,2) by simp_all
  have "drainLoop r s0 (pre @ x # rest) af0 = drainLoop r s1 (x # rest) af1"
    using drainLoop_append[OF assms(1,2), of r pre "x # rest" af0] assms(3) by simp
  also have "\<dots> = drainLoop r (s1\<lparr>bk := b'\<rparr>) rest True"
    using live pb by simp
  finally have d: "drainLoop r s0 (pre @ x # rest) af0 = drainLoop r (s1\<lparr>bk := b'\<rparr>) rest True" .
  have d1: "drainLoop r s0 (pre @ x # rest) af0 = foldl (iteration r) (True, s1\<lparr>bk := b'\<rparr>) rest"
    unfolding d using live by (intro drainLoop_no_break) simp_all
  have d2: "fst (drainLoop r s0 (pre @ x # rest) af0)"
    unfolding d by (rule drainLoop_anyFailed) simp
  have c: "calls b' = calls (bk s1) @ [(item_id x, c)]" "ideas b' = ideas (bk s1)"
    by (simp_all add: b'_def p catchBlock_result)
  have len: "length (outbox b') = length (outbox (bk s1))"
    by (simp add: b'_def p catchBlock_result low incrementOutboxAttempt_def)
  have row: "y\<lparr>attemptCount := attemptCount y + 1,
                 lastError := Some (case e of None \<Rightarrow> ''Sync failed'' | Some m \<Rightarrow> m)\<rparr>
               \<in> set (outbox b')"
    if "truthy (pLocalId (payload x))" "y \<in> set (outbox (bk s1))"
       "pLocalId (payload y) = pLocalId (payload x)" for y
    using that incrementOutboxAttempt_row[of y "outbox (bk s1)" "pLocalId (payload x)"
        "Some (case e of None \<Rightarrow> ''Sync failed'' | Some m \<Rightarrow> m)"]
    by (simp add: b'_def p catchBlock_result low)
  have fin: "?x' \<in> set (outbox (bk (snd (drainLoop r s0 (pre @ x # rest) af0))))"
    if t: "truthy (pLocalId (payload x))" and mem: "x \<in> set (outbox (bk s0))"
      and other: "\<forall>m\<in>set (pre @ rest).
               item_id m \<noteq> item_id x \<and> pLocalId (payload m) \<noteq> pLocalId (payload x)"
  proof -
    have "x \<in> set (outbox (bk (snd (drainLoop r s0 pre af0))))"
      using mem other by (intro drainLoop_keeps_other) simp_all
    then have "x \<in> set (outbox (bk s1))" using assms(3) by simp
    then have "?x' \<in> set (outbox b')" using row[OF t] by simp
    then have "?x' \<in> set (outbox (bk (snd (drainLoop r (s1\<lparr>bk := b'\<rparr>) rest True))))"
      using other by (intro drainLoop_keeps_other) simp_all
    then show ?thesis unfolding d .
  qed
  show ?thesis
    using pb d1 d2 c len row fin by (intro exI[of _ b']) blast
qed

theorem failure_independence_witness:
  "drainLoop remoteDown
     (readyEngine (sampleBackend []
        [sampleItem ''e1'' createProject (samplePayload ''L1'' None None) 5 0,
         sampleItem ''e2'' createProject (samplePayload ''L2'' None None) 6 0]))
     [] False =
     (False, readyEngine (sampleBackend []
        [sampleItem ''e1'' createProject (samplePayload ''L1'' None None) 5 0,
         sampleItem ''e2'' createProject (samplePayload ''L2'' None None) 6 0])) \<and>
   requestOf (sampleBackend []
        [sampleItem ''e1'' createProject (samplePayload ''L1'' None None) 5 0,
         sampleItem ''e2'' createProject (samplePayload ''L2'' None None) 6 0])
     (sampleItem ''e1'' createProject (samplePayload ''L1'' None None) 5 0) =
     Some (CreateProject (Some ''Ship v1'')) \<and>
   remoteDown [] (CreateProject (Some ''Ship v1'')) = Inl (Some ''Network request failed'') \<and>
   fst (drainLoop remoteDown
     (readyEngine (sampleBackend []
        [sampleItem ''e1'' createProject (samplePayload ''L1'' None None) 5 0,
         sampleItem ''e2'' createProject (samplePayload ''L2'' None None) 6 0]))
     [sampleItem ''e1'' createProject (samplePayload ''L1'' None None) 5 0,
      sampleItem ''e2'' createProject (samplePayload ''L2'' None None) 6 0] False) \<and>
   (\<exists>b'. processItem remoteDown 0 (sampleBackend []
        [sampleItem ''e1'' createProject (samplePayload ''L1'' None None) 5 0,
         sampleItem ''e2'' createProject (samplePayload ''L2'' None None) 6 0])
         (sampleItem ''e1'' createProject (samplePayload ''L1'' None None) 5 0) = (False, b') \<and>
      (sampleItem ''e1'' createProject (samplePayload ''L1'' None None) 5 0)
         \<lparr>attemptCount := 1, lastError := Some ''Network request failed''\<rparr> \<in> set (outbox b')) \<and>
   (sampleItem ''e1'' createProject (samplePayload ''L1'' None None) 5 0)
      \<lparr>attemptCount := 1, lastError := Some ''Network request failed''\<rparr>
     \<in> set (outbox (bk (snd (drainLoop remoteDown
          (readyEngine (sampleBackend []
             [sampleItem ''e1'' createProject (samplePayload ''L1'' None None) 5 0,
              sampleItem ''e2'' createProject (samplePayload ''L2'' None None) 6 0]))
          [sampleItem ''e1'' createProject (samplePayload ''L1'' None None) 5 0,
           sampleItem ''e2'' createProject (samplePayload ''L2'' None None) 6 0] False))))"
proof -
  let ?x = "sampleItem ''e1'' createProject (samplePayload ''L1'' None None) 5 0"
  let ?y = "sampleItem ''e2'' createProject (samplePayload ''L2'' None None) 6 0"
  let ?b = "sampleBackend [] [?x, ?y]"
  let ?s = "readyEngine ?b"
  let ?c = "CreateProject (Some ''Ship v1'')"
  let ?x' = "?x\<lparr>attemptCount := attemptCount ?x + 1,
                   lastError := Some (case Some ''Network request failed'' of
                                        None \<Rightarrow> ''Sync failed'' | Some m \<Rightarrow> m)\<rparr>"
  have b: "bk ?s = ?b" "clock ?s = 0"
    by (simp_all add: readyEngine_def initEngine_def)
  have h0: "drainLoop remoteDown ?s [] False = (False, ?s)"
    by simp
  have h1: "requestOf (bk ?s) ?x = Some ?c"
    by (simp add: requestOf_def sampleItem_def samplePayload_def)
  have h2: "remoteDown (map snd (calls (bk ?s))) ?c = Inl (Some ''Network request failed'')"
    by (simp add: remoteDown_def)
  have h2': "remoteDown [] ?c = Inl (Some ''Network request failed'')"
    by (simp add: remoteDown_def)
  have h3: "mountedRef ?s" "isOnline ?s"
    by (simp_all add: readyEngine_def initEngine_def)
  have h4: "attemptCount ?x < 10"
    by (simp add: sampleItem_def)
  have t: "truthy (pLocalId (payload ?x))" "?x \<in> set (outbox (bk ?s))"
    by (simp_all add: truthy_def sampleItem_def samplePayload_def readyEngine_def initEngine_def
          sampleBackend_def)
  have o: "\<forall>m\<in>set ([] @ [?y]). item_id m \<noteq> item_id ?x \<and> pLocalId (payload m) \<noteq> pLocalId (payload ?x)"
    by (simp add: sampleItem_def samplePayload_def)
  from failure_independence[where rest = "[?y]", OF h3 h0 h1 h2 h4]
  obtain b' where p: "processItem remoteDown (clock ?s) (bk ?s) ?x = (False, b')"
    and f: "fst (drainLoop remoteDown ?s ([] @ ?x # [?y]) False)"
    and r: "truthy (pLocalId (payload ?x)) \<longrightarrow>
              (\<forall>y\<in>set (outbox (bk ?s)). pLocalId (payload y) = pLocalId (payload ?x) \<longrightarrow>
                 y\<lparr>attemptCount := attemptCount y + 1,
                   lastError := Some (case Some ''Network request failed'' of
                                        None \<Rightarrow> ''Sync failed'' | Some m \<Rightarrow> m)\<rparr>
                 \<in> set (outbox b'))"
    and e: "truthy (pLocalId (payload ?x)) \<and> ?x \<in> set (outbox (bk ?s)) \<and>
            (\<forall>m\<in>set ([] @ [?y]).
               item_id m \<noteq> item_id ?x \<and> pLocalId (payload m) \<noteq> pLocalId (payload ?x)) \<longrightarrow>
              ?x' \<in> set (outbox (bk (snd (drainLoop remoteDown ?s ([] @ ?x # [?y]) False))))"
    by blast
  from r t have "?x' \<in> set (outbox b')"
    by blast
  moreover have n: "attemptCount ?x + 1 = 1"
    by (simp add: sampleItem_def)
  ultimately have row: "?x\<lparr>attemptCount := 1, lastError := Some ''Network request failed''\<rparr>
                 \<in> set (outbox b')"
    by simp
  from e t o have "?x' \<in> set (outbox (bk (snd (drainLoop remoteDown ?s ([] @ ?x # [?y]) False))))"
    by blast
  then have fin: "?x\<lparr>attemptCount := 1, lastError := Some ''Network request failed''\<rparr>
      \<in> set (outbox (bk (snd (drainLoop remoteDown ?s [?x, ?y] False))))"
    using n by simp
  from f have f': "fst (drainLoop remoteDown ?s [?x, ?y] False)"
    by simp
  from h0 h1[unfolded b] h2' f' p[unfolded b] row fin show ?thesis
    by blast
qed

text \<open>
  The claim as it was stated fails when another item of the pass has the same
  \<open>localId\<close>. The request of an \<open>updateStatus\<close> item is rejected and the one of the
  \<open>deleteIdea\<close> item that follows for the same record is resolved: the removal by
  \<open>localId\<close> deletes the failed row, and the outbox is empty at the end of the pass.
  When both requests are rejected, each failure increments both rows, and the failed
  row ends the pass with \<open>attemptCount\<close> 2.
\<close>

theorem failed_row_removed_by_sibling:
  "requestOf (sampleBackend []
       [sampleItem ''e1'' updateStatus (samplePayload ''L1'' (Some ''srv_9'') None) 5 0,
        sampleItem ''e2'' deleteIdea (samplePayload ''L1'' (Some ''srv_9'') None) 6 0])
     (sampleItem ''e1'' updateStatus (samplePayload ''L1'' (Some ''srv_9'') None) 5 0) =
     Some (UpdateStatus ''srv_9'' (Some ''DONE'')) \<and>
   remoteDownFor 1 [] (UpdateStatus ''srv_9'' (Some ''DONE'')) =
     Inl (Some ''Network request failed'') \<and>
   attemptCount (sampleItem ''e1'' updateStatus (samplePayload ''L1'' (Some ''srv_9'') None) 5 0) = 0 \<and>
   calls (bk (flushOutboxPass (remoteDownFor 1) (readyEngine (sampleBackend []
       [sampleItem ''e1'' updateStatus (samplePayload ''L1'' (Some ''srv_9'') None) 5 0,
        sampleItem ''e2'' deleteIdea (samplePayload ''L1'' (Some ''srv_9'') None) 6 0])))) =
     [(''e1'', UpdateStatus ''srv_9'' (Some ''DONE'')), (''e2'', DeleteIdea ''srv_9'')] \<and>
   isOnline (flushOutboxPass (remoteDownFor 1) (readyEngine (sampleBackend []
       [sampleItem ''e1'' updateStatus (samplePayload ''L1'' (Some ''srv_9'') None) 5 0,
        sampleItem ''e2'' deleteIdea (samplePayload ''L1'' (Some ''srv_9'') None) 6 0]))) \<and>
   mountedRef (flushOutboxPass (remoteDownFor 1) (readyEngine (sampleBackend []
       [sampleItem ''e1'' updateStatus (samplePayload ''L1'' (Some ''srv_9'') None) 5 0,
        sampleItem ''e2'' deleteIdea (samplePayload ''L1'' (Some ''srv_9'') None) 6 0]))) \<and>
   outbox (bk (flushOutboxPass (remoteDownFor 1) (readyEngine (sampleBackend []
       [sampleItem ''e1'' updateStatus (samplePayload ''L1'' (Some ''srv_9'') None) 5 0,
        sampleItem ''e2'' deleteIdea (samplePayload ''L1'' (Some ''srv_9'') None) 6 0])))) = [] \<and>
   outbox (bk (flushOutboxPass remoteDown (readyEngine (sampleBackend []
       [sampleItem ''e1'' updateStatus (samplePayload ''L1'' (Some ''srv_9'') None) 5 0,
        sampleItem ''e2'' deleteIdea (samplePayload ''L1'' (Some ''srv_9'') None) 6 0])))) =
     [(sampleItem ''e1'' updateStatus (samplePayload ''L1'' (Some ''srv_9'') None) 5 0)
        \<lparr>attemptCount := 2, lastError := Some ''Network request failed''\<rparr>,
      (sampleItem ''e2'' deleteIdea (samplePayload ''L1'' (Some ''srv_9'') None) 6 0)
        \<lparr>attemptCount := 2, lastError := Some ''Network request failed''\<rparr>]"
  by (simp add: sample_eval requestOf_def remoteDown_def)

section \<open>Removal by localId\<close>





text \<open>
  A row that the UI enqueues while the pass is in flight, after the pass has read its
  list, is deleted with the rows of its \<open>localId\<close> and is never sent.
\<close>

lemma entry_enqueued_during_pass_is_dropped:
  "calls (bk (run remoteUp
      [Mount, Resume 0,
       UiEnqueue ''e2'' updateStatus (samplePayload ''L1'' None None),
       Resume 0, Resume 0]
      (initEngine (sampleBackend [sampleIdea ''L1'' None]
         [sampleItem ''e1'' createProject (samplePayload ''L1'' None None) 5 0]) 7))) =
     [(''e1'', CreateProject (Some ''Ship v1''))] \<and>
   outbox (bk (run remoteUp
      [Mount, Resume 0,
       UiEnqueue ''e2'' updateStatus (samplePayload ''L1'' None None),
       Resume 0, Resume 0]
      (initEngine (sampleBackend [sampleIdea ''L1'' None]
         [sampleItem ''e1'' createProject (samplePayload ''L1'' None None) 5 0]) 7))) = [] \<and>
   passes (run remoteUp
      [Mount, Resume 0,
       UiEnqueue ''e2'' updateStatus (samplePayload ''L1'' None None),
       Resume 0, Resume 0]
      (initEngine (sampleBackend [sampleIdea ''L1'' None]
         [sampleItem ''e1'' createProject (samplePayload ''L1'' None None) 5 0]) 7)) = []"
  by (simp add: machine_eval remoteUp_def enqueueOutbox_def)

section \<open>Items of a kind that is not handled\<close>

text \<open>
  Claim C10, as the code has it. For an item whose action is \<open>updateIdea\<close>, the one kind
  the type admits and \<open>processItem\<close> does not handle, \<open>processItem\<close> returns false and
  leaves the tables and the request log as they were, whatever the \<open>attemptCount\<close>: no
  request, no increment, no removal, and no abandonment at the ceiling. A pass that
  starts online, mounted and idle with such a row in the outbox, and is not interrupted,
  ends with \<open>anyFailed\<close> true and schedules a retry. Processing an item with another
  entry id and another \<open>localId\<close> leaves the row as it is. Processing any item \<open>w\<close>
  (one that has the entry's own id being the entry itself, hence an \<open>updateIdea\<close> item)
  leaves a row with the entry's id, action and payload in the outbox, unless \<open>w\<close> has
  the same \<open>localId\<close> and its request is resolved by the service; in that case no row
  with that \<open>localId\<close> is left. No event other than a step of a pass in flight removes
  an outbox row, and such a step changes the tables only by \<open>processItem\<close> on the next
  item of the pass.
\<close>

theorem unhandled_action:
  assumes "action x = updateIdea"
  shows "processItem r now b x = (False, b) \<and>
         (mountedRef s \<and> isOnline s \<and> \<not> isSyncing s \<and> x \<in> set (outbox (bk s)) \<longrightarrow>
            currentRetryIndex (flushOutboxPass r s) = currentRetryIndex s + 1 \<and>
            retryTimeoutId (flushOutboxPass r s) = Some (nextTimerId s) \<and>
            (nextTimerId s, RetryCallback, RETRY_DELAYS ! min (currentRetryIndex s) 3)
              \<in> set (timers (flushOutboxPass r s))) \<and>
         (x \<in> set (outbox b) \<and> item_id y \<noteq> item_id x \<and>
          pLocalId (payload y) \<noteq> pLocalId (payload x) \<longrightarrow>
            x \<in> set (outbox (snd (processItem r now b y)))) \<and>
         (x \<in> set (outbox b) \<and> (item_id w = item_id x \<longrightarrow> action w = updateIdea) \<and>
          \<not> (pLocalId (payload w) = pLocalId (payload x) \<and>
              (\<exists>c sid. requestOf b w = Some c \<and> r (map snd (calls b)) c = Inr sid)) \<longrightarrow>
            (\<exists>x'\<in>set (outbox (snd (processItem r now b w))).
               item_id x' = item_id x \<and> action x' = updateIdea \<and> payload x' = payload x)) \<and>
         (pLocalId (payload w) = pLocalId (payload x) \<and>
          requestOf b w = Some c \<and> r (map snd (calls b)) c = Inr sid \<longrightarrow>
            (\<forall>x'\<in>set (outbox (snd (processItem r now b w))).
               pLocalId (payload x') \<noteq> pLocalId (payload x))) \<and>
         ((\<forall>i. ev \<noteq> Resume i) \<and> x \<in> set (outbox (bk s')) \<longrightarrow>
            x \<in> set (outbox (bk (handle r ev s')))) \<and>
         bk (handle r (Resume i) s') =
           (if i < length (passes s')
            then case passes s' ! i of
                   Fetching \<Rightarrow> bk s'
                 | Looping items af \<Rightarrow>
                     (case items of
                        [] \<Rightarrow> bk s'
                      | m # ms \<Rightarrow>
                          if mountedRef s' \<and> isOnline s'
                          then snd (processItem r (clock s') (bk s') m) else bk s')
            else bk s')"
proof -
  have 1: "processItem r now b x = (False, b)" for b
    using assms by (simp add: processItem_def)
  have 2: "currentRetryIndex (flushOutboxPass r s) = currentRetryIndex s + 1 \<and>
           retryTimeoutId (flushOutboxPass r s) = Some (nextTimerId s) \<and>
           (nextTimerId s, RetryCallback, RETRY_DELAYS ! min (currentRetryIndex s) 3)
              \<in> set (timers (flushOutboxPass r s))"
    if ready: "mountedRef s" "isOnline s" "\<not> isSyncing s" and mem: "x \<in> set (outbox (bk s))"
  proof -
    let ?items = "getOutboxItems (outbox (bk s))"
    let ?d = "drainLoop r (s\<lparr>isSyncing := True\<rparr>) ?items False"
    have "x \<in> set ?items" using mem by (simp add: getOutboxItems_def)
    then have af: "fst ?d"
      using ready assms by (intro drainLoop_updateIdea[of _ x]) simp_all
    have "flushOutboxPass r s = afterLoop True (s\<lparr>isSyncing := True, bk := bk (snd ?d)\<rparr>)"
      using flushOutboxPass_ready[OF ready, of r] af by simp
    also have "\<dots> = (s\<lparr>isSyncing := True, bk := bk (snd ?d)\<rparr>)
           \<lparr>currentRetryIndex := currentRetryIndex s + 1,
             timers := filter (\<lambda>x. Some (fst x) \<noteq> retryTimeoutId s) (timers s) @
                       [(nextTimerId s, RetryCallback, RETRY_DELAYS ! min (currentRetryIndex s) 3)],
             nextTimerId := Suc (nextTimerId s),
             retryTimeoutId := Some (nextTimerId s),
             isSyncing := False\<rparr>"
      using ready by (subst afterLoop_failed) simp_all
    finally show ?thesis by simp
  qed
  have 3: "x \<in> set (outbox (snd (processItem r now b y)))"
    if "x \<in> set (outbox b) \<and> item_id y \<noteq> item_id x \<and>
        pLocalId (payload y) \<noteq> pLocalId (payload x)"
    using that processItem_keeps_other[of x b y r now] by simp
  have 4: "\<exists>x'\<in>set (outbox (snd (processItem r now b w))).
               item_id x' = item_id x \<and> action x' = updateIdea \<and> payload x' = payload x"
    if h: "x \<in> set (outbox b) \<and> (item_id w = item_id x \<longrightarrow> action w = updateIdea) \<and>
          \<not> (pLocalId (payload w) = pLocalId (payload x) \<and>
              (\<exists>c sid. requestOf b w = Some c \<and> r (map snd (calls b)) c = Inr sid))"
  proof (cases "item_id w = item_id x")
    case True
    then have "action w = updateIdea" using h by simp
    then have "processItem r now b w = (False, b)" by (simp add: processItem_def)
    then show ?thesis using h assms by (intro bexI[of _ x]) simp_all
  next
    case False
    then show ?thesis
      using processItem_keeps_entry[of x b w r now] h assms by simp
  qed
  have 5: "\<forall>x'\<in>set (outbox (snd (processItem r now b w))).
               pLocalId (payload x') \<noteq> pLocalId (payload x)"
    if "pLocalId (payload w) = pLocalId (payload x) \<and>
          requestOf b w = Some c \<and> r (map snd (calls b)) c = Inr sid"
    using that by (simp add: processItem_resolved removeOutboxByLocalId_def)
  have 6: "x \<in> set (outbox (bk (handle r ev s')))"
    if "(\<forall>i. ev \<noteq> Resume i) \<and> x \<in> set (outbox (bk s'))"
    using that handle_keeps_outbox[of ev x s' r] by simp
  note 7 = resume_bk[of r i s']
  show ?thesis
    using 1 2 3 4 5 6 7 by (intro conjI impI) blast+
qed

theorem unhandled_action_witness:
  "action (sampleItem ''e2'' updateIdea (samplePayload ''L1'' None None) 6 0) = updateIdea \<and>
   (sampleItem ''e2'' updateIdea (samplePayload ''L1'' None None) 6 0)
     \<in> set (outbox (bk (readyEngine (sampleBackend []
          [sampleItem ''e2'' updateIdea (samplePayload ''L1'' None None) 6 0])))) \<and>
   currentRetryIndex (flushOutboxPass remoteUp (readyEngine (sampleBackend []
          [sampleItem ''e2'' updateIdea (samplePayload ''L1'' None None) 6 0]))) = 1 \<and>
   retryTimeoutId (flushOutboxPass remoteUp (readyEngine (sampleBackend []
          [sampleItem ''e2'' updateIdea (samplePayload ''L1'' None None) 6 0]))) = Some 1 \<and>
   (sampleItem ''e2'' updateIdea (samplePayload ''L1'' None None) 6 0)
     \<in> set (outbox (bk (handle remoteUp TriggerSync (readyEngine (sampleBackend []
          [sampleItem ''e2'' updateIdea (samplePayload ''L1'' None None) 6 0]))))) \<and>
   pLocalId (payload (sampleItem ''e1'' updateStatus (samplePayload ''L1'' (Some ''srv_9'') None) 5 10)) =
     pLocalId (payload (sampleItem ''e2'' updateIdea (samplePayload ''L1'' None None) 6 0)) \<and>
   requestOf (sampleBackend []
        [sampleItem ''e1'' updateStatus (samplePayload ''L1'' (Some ''srv_9'') None) 5 10,
         sampleItem ''e2'' updateIdea (samplePayload ''L1'' None None) 6 0])
     (sampleItem ''e1'' updateStatus (samplePayload ''L1'' (Some ''srv_9'') None) 5 10) =
     Some (UpdateStatus ''srv_9'' (Some ''DONE'')) \<and>
   remoteDown [] (UpdateStatus ''srv_9'' (Some ''DONE'')) = Inl (Some ''Network request failed'') \<and>
   processItem remoteDown 0 (sampleBackend []
        [sampleItem ''e1'' updateStatus (samplePayload ''L1'' (Some ''srv_9'') None) 5 10,
         sampleItem ''e2'' updateIdea (samplePayload ''L1'' None None) 6 0])
     (sampleItem ''e1'' updateStatus (samplePayload ''L1'' (Some ''srv_9'') None) 5 10) =
     (True, \<lparr>ideas = [],
             outbox = [(sampleItem ''e2'' updateIdea (samplePayload ''L1'' None None) 6 0)
                         \<lparr>attemptCount := 1, lastError := Some ''Network request failed''\<rparr>],
             calls = [(''e1'', UpdateStatus ''srv_9'' (Some ''DONE''))]\<rparr>) \<and>
   (\<exists>x'\<in>set (outbox (snd (processItem remoteDown 0 (sampleBackend []
        [sampleItem ''e1'' updateStatus (samplePayload ''L1'' (Some ''srv_9'') None) 5 10,
         sampleItem ''e2'' updateIdea (samplePayload ''L1'' None None) 6 0])
        (sampleItem ''e1'' updateStatus (samplePayload ''L1'' (Some ''srv_9'') None) 5 10)))).
      item_id x' = ''e2'' \<and> action x' = updateIdea \<and> payload x' = samplePayload ''L1'' None None) \<and>
   remoteUp [] (UpdateStatus ''srv_9'' (Some ''DONE'')) = Inr ''srv_1'' \<and>
   outbox (snd (processItem remoteUp 0 (sampleBackend []
        [sampleItem ''e1'' updateStatus (samplePayload ''L1'' (Some ''srv_9'') None) 5 10,
         sampleItem ''e2'' updateIdea (samplePayload ''L1'' None None) 6 0])
     (sampleItem ''e1'' updateStatus (samplePayload ''L1'' (Some ''srv_9'') None) 5 10))) = []"
proof -
  let ?x = "sampleItem ''e2'' updateIdea (samplePayload ''L1'' None None) 6 0"
  let ?w = "sampleItem ''e1'' updateStatus (samplePayload ''L1'' (Some ''srv_9'') None) 5 10"
  let ?s = "readyEngine (sampleBackend [] [?x])"
  let ?b = "sampleBackend [] [?w, ?x]"
  let ?c = "UpdateStatus ''srv_9'' (Some ''DONE'')"
  have a: "action ?x = updateIdea" by (simp add: sampleItem_def)
  have m: "?x \<in> set (outbox (bk ?s))"
    by (simp add: readyEngine_def initEngine_def sampleBackend_def)
  have ready: "mountedRef ?s" "isOnline ?s" "\<not> isSyncing ?s"
    by (simp_all add: readyEngine_def initEngine_def)
  have v: "currentRetryIndex ?s + 1 = 1" "nextTimerId ?s = 1"
    by (simp_all add: readyEngine_def initEngine_def)
  have nr: "\<forall>i. TriggerSync \<noteq> Resume i" by simp
  have mb: "?x \<in> set (outbox ?b)" by (simp add: sampleBackend_def)
  have ids: "item_id ?w = item_id ?x \<longrightarrow> action ?w = updateIdea"
    by (simp add: sampleItem_def)
  have l: "pLocalId (payload ?w) = pLocalId (payload ?x)"
    by (simp add: sampleItem_def samplePayload_def)
  have px: "item_id ?x = ''e2''" "payload ?x = samplePayload ''L1'' None None"
    by (simp_all add: sampleItem_def)
  have rq: "requestOf ?b ?w = Some ?c"
    by (simp add: sample_eval requestOf_def)
  have down: "remoteDown [] ?c = Inl (Some ''Network request failed'')"
    "remoteDown (map snd (calls ?b)) ?c = Inl (Some ''Network request failed'')"
    by (simp_all add: remoteDown_def)
  have up: "remoteUp [] ?c = Inr ''srv_1''" "remoteUp (map snd (calls ?b)) ?c = Inr ''srv_1''"
    by (simp_all add: remoteUp_def sampleBackend_def)
  have nres: "\<not> (pLocalId (payload ?w) = pLocalId (payload ?x) \<and>
              (\<exists>c sid. requestOf ?b ?w = Some c \<and> remoteDown (map snd (calls ?b)) c = Inr sid))"
    by (simp add: remoteDown_def)
  have pd: "processItem remoteDown 0 ?b ?w =
     (True, \<lparr>ideas = [],
             outbox = [?x\<lparr>attemptCount := 1, lastError := Some ''Network request failed''\<rparr>],
             calls = [(''e1'', ?c)]\<rparr>)"
    by (simp add: sample_eval remoteDown_def)
  have pu: "outbox (snd (processItem remoteUp 0 ?b ?w)) = []"
    by (simp add: sample_eval remoteUp_def)
  note U = unhandled_action[OF a, where r = remoteUp and s = ?s and ev = TriggerSync and s' = ?s
      and b = ?b and now = 0 and w = ?w and c = ?c and sid = "''srv_1''"]
  note D = unhandled_action[OF a, where r = remoteDown and b = ?b and now = 0 and w = ?w]
  from U ready m
  have c2: "currentRetryIndex (flushOutboxPass remoteUp ?s) = currentRetryIndex ?s + 1"
    and c2': "retryTimeoutId (flushOutboxPass remoteUp ?s) = Some (nextTimerId ?s)"
    by blast+
  from U nr m have c6: "?x \<in> set (outbox (bk (handle remoteUp TriggerSync ?s)))"
    by blast
  from D mb ids nres
  have c4: "\<exists>x'\<in>set (outbox (snd (processItem remoteDown 0 ?b ?w))).
      item_id x' = item_id ?x \<and> action x' = updateIdea \<and> payload x' = payload ?x"
    by blast
  from U l rq up(2)
  have c5: "\<forall>x'\<in>set (outbox (snd (processItem remoteUp 0 ?b ?w))).
               pLocalId (payload x') \<noteq> pLocalId (payload ?x)"
    by blast
  from a m c2 c2' c6 l rq down(1) pd c4 up(1) pu show ?thesis
    unfolding v px by blast
qed

text \<open>
  The claim as it was stated fails: an \<open>updateIdea\<close> row is removed by the engine when
  an \<open>updateStatus\<close> for the same record succeeds.
\<close>

theorem unhandled_entry_removed:
  "action (sampleItem ''e2'' updateIdea (samplePayload ''L1'' None None) 6 0) = updateIdea \<and>
   sampleItem ''e2'' updateIdea (samplePayload ''L1'' None None) 6 0
     \<in> set (outbox (sampleBackend [sampleIdea ''L1'' (Some ''srv_9'')]
          [sampleItem ''e1'' updateStatus (samplePayload ''L1'' (Some ''srv_9'') None) 5 0,
           sampleItem ''e2'' updateIdea (samplePayload ''L1'' None None) 6 0])) \<and>
   outbox (bk (flushOutboxPass remoteUp
       (readyEngine (sampleBackend [sampleIdea ''L1'' (Some ''srv_9'')]
          [sampleItem ''e1'' updateStatus (samplePayload ''L1'' (Some ''srv_9'') None) 5 0,
           sampleItem ''e2'' updateIdea (samplePayload ''L1'' None None) 6 0])))) = []"
  by (simp add: sampleIdea_def samplePayload_def sampleItem_def sampleBackend_def
        readyEngine_def initEngine_def remoteUp_def flushOutboxPass_def getOutboxItems_def
        processItem_def invoke_def markIdeaSynced_def removeOutboxByLocalId_def
        resolveServerId_def getServerIdByLocalId_def truthy_def afterLoop_def Let_def
        setTimeout_def RETRY_DELAYS_def)


section \<open>Backoff\<close>

text \<open>
  Claim C6. Take passes that start online, mounted and idle and run uninterrupted one
  after the other. When a pass ends with \<open>anyFailed\<close> true, the retry it schedules has
  the delay \<open>RETRY_DELAYS[min(currentRetryIndex, 3)]\<close> for the index the pass found, it
  is the timer \<open>retryTimeoutId\<close> then names, and the index is one higher afterwards. So
  after \<open>n\<close> failed passes in a row the index has grown by \<open>n\<close>, and the pass number
  \<open>k + 1\<close> of the row schedules \<open>RETRY_DELAYS[min(index + k, 3)]\<close>: from index 0 that
  is 2000, 5000, 10000 and from the fourth on 30000 ms. A pass that ends with
  \<open>anyFailed\<close> false sets the index to 0 and schedules nothing, so that the next
  failed pass schedules 2000 ms again.
\<close>

theorem backoff_schedule:
  assumes "mountedRef s" and "isOnline s" and "\<not> isSyncing s"
    and "\<forall>k<n. passAnyFailed r ((flushOutboxPass r ^^ k) s)"
  shows "currentRetryIndex ((flushOutboxPass r ^^ n) s) = currentRetryIndex s + n \<and>
         (\<forall>k<n. retryTimeoutId ((flushOutboxPass r ^^ Suc k) s) =
                   Some (nextTimerId ((flushOutboxPass r ^^ k) s)) \<and>
                 last (timers ((flushOutboxPass r ^^ Suc k) s)) =
                   (nextTimerId ((flushOutboxPass r ^^ k) s), RetryCallback,
                    RETRY_DELAYS ! min (currentRetryIndex s + k) 3)) \<and>
         (\<not> passAnyFailed r ((flushOutboxPass r ^^ n) s) \<longrightarrow>
            currentRetryIndex ((flushOutboxPass r ^^ Suc n) s) = 0 \<and>
            timers ((flushOutboxPass r ^^ Suc n) s) = timers ((flushOutboxPass r ^^ n) s)) \<and>
         RETRY_DELAYS ! min 0 3 = 2000 \<and> RETRY_DELAYS ! min 1 3 = 5000 \<and>
         RETRY_DELAYS ! min 2 3 = 10000 \<and> (\<forall>j\<ge>3. RETRY_DELAYS ! min j 3 = 30000)"
proof -
  have st: "mountedRef ((flushOutboxPass r ^^ k) s) \<and> isOnline ((flushOutboxPass r ^^ k) s) \<and>
         \<not> isSyncing ((flushOutboxPass r ^^ k) s) \<and>
         currentRetryIndex ((flushOutboxPass r ^^ k) s) = currentRetryIndex s + k" if "k \<le> n" for k
    using that assms by (intro consecutive_failed) simp_all
  have 1: "currentRetryIndex ((flushOutboxPass r ^^ n) s) = currentRetryIndex s + n"
    using st[of n] by simp
  have 2: "retryTimeoutId ((flushOutboxPass r ^^ Suc k) s) =
                   Some (nextTimerId ((flushOutboxPass r ^^ k) s)) \<and>
                 last (timers ((flushOutboxPass r ^^ Suc k) s)) =
                   (nextTimerId ((flushOutboxPass r ^^ k) s), RetryCallback,
                    RETRY_DELAYS ! min (currentRetryIndex s + k) 3)" if "k < n" for k
  proof -
    let ?sk = "(flushOutboxPass r ^^ k) s"
    have r: "mountedRef ?sk" "isOnline ?sk" "\<not> isSyncing ?sk"
      "currentRetryIndex ?sk = currentRetryIndex s + k"
      using st[of k] that by simp_all
    have f: "passAnyFailed r ?sk" using assms(4) that by simp
    show ?thesis
      using flushOutboxPass_failed(2,3)[OF r(1-3) f] r(4) by simp
  qed
  have 3: "currentRetryIndex ((flushOutboxPass r ^^ Suc n) s) = 0 \<and>
            timers ((flushOutboxPass r ^^ Suc n) s) = timers ((flushOutboxPass r ^^ n) s)"
    if "\<not> passAnyFailed r ((flushOutboxPass r ^^ n) s)"
  proof -
    let ?sn = "(flushOutboxPass r ^^ n) s"
    have r: "mountedRef ?sn" "isOnline ?sn" "\<not> isSyncing ?sn"
      using st[of n] by simp_all
    show ?thesis
      using flushOutboxPass_ok(1,2)[OF r that] by simp
  qed
  show ?thesis
    using 1 2 3 RETRY_DELAYS_values by blast
qed



theorem backoff_schedule_witness:
  "passAnyFailed (remoteDownFor 3) (backoffState 0 []) \<and>
   flushOutboxPass (remoteDownFor 3) (backoffState 0 []) =
     backoffState 1 [(''e1'', CreateProject (Some ''Ship v1''))] \<and>
   passAnyFailed (remoteDownFor 3) (backoffState 1 [(''e1'', CreateProject (Some ''Ship v1''))]) \<and>
   flushOutboxPass (remoteDownFor 3) (backoffState 1 [(''e1'', CreateProject (Some ''Ship v1''))]) =
     backoffState 2 [(''e1'', CreateProject (Some ''Ship v1'')),
                     (''e1'', CreateProject (Some ''Ship v1''))] \<and>
   passAnyFailed (remoteDownFor 3)
     (backoffState 2 [(''e1'', CreateProject (Some ''Ship v1'')),
                      (''e1'', CreateProject (Some ''Ship v1''))]) \<and>
   flushOutboxPass (remoteDownFor 3)
     (backoffState 2 [(''e1'', CreateProject (Some ''Ship v1'')),
                      (''e1'', CreateProject (Some ''Ship v1''))]) =
     backoffState 3 [(''e1'', CreateProject (Some ''Ship v1'')),
                     (''e1'', CreateProject (Some ''Ship v1'')),
                     (''e1'', CreateProject (Some ''Ship v1''))] \<and>
   \<not> passAnyFailed (remoteDownFor 3)
     (backoffState 3 [(''e1'', CreateProject (Some ''Ship v1'')),
                      (''e1'', CreateProject (Some ''Ship v1'')),
                      (''e1'', CreateProject (Some ''Ship v1''))]) \<and>
   timers (backoffState 1 [(''e1'', CreateProject (Some ''Ship v1''))]) =
     [(1, RetryCallback, 2000)] \<and>
   timers (backoffState 2 [(''e1'', CreateProject (Some ''Ship v1'')),
                           (''e1'', CreateProject (Some ''Ship v1''))]) =
     [(2, RetryCallback, 5000)] \<and>
   timers (backoffState 3 [(''e1'', CreateProject (Some ''Ship v1'')),
                           (''e1'', CreateProject (Some ''Ship v1'')),
                           (''e1'', CreateProject (Some ''Ship v1''))]) =
     [(3, RetryCallback, 10000)] \<and>
   currentRetryIndex
     (flushOutboxPass (remoteDownFor 3)
        (backoffState 3 [(''e1'', CreateProject (Some ''Ship v1'')),
                         (''e1'', CreateProject (Some ''Ship v1'')),
                         (''e1'', CreateProject (Some ''Ship v1''))])) = 0"
proof -
  let ?r = "remoteDownFor 3"
  let ?c = "(''e1'', CreateProject (Some ''Ship v1''))"
  let ?P = "flushOutboxPass ?r"
  have f0: "passAnyFailed ?r (backoffState 0 [])"
    and f1: "passAnyFailed ?r (backoffState 1 [?c])"
    and f2: "passAnyFailed ?r (backoffState 2 [?c, ?c])"
    and f3: "\<not> passAnyFailed ?r (backoffState 3 [?c, ?c, ?c])"
    by (simp_all add: sample_eval)
  have p0: "?P (backoffState 0 []) = backoffState 1 [?c]"
    by (simp add: sample_eval)
  have p1: "?P (backoffState 1 [?c]) = backoffState 2 [?c, ?c]"
    by (simp add: sample_eval)
  have p2: "?P (backoffState 2 [?c, ?c]) = backoffState 3 [?c, ?c, ?c]"
    by (simp add: sample_eval)
  have t: "timers (backoffState 1 [?c]) = [(1, RetryCallback, 2000)]"
    "timers (backoffState 2 [?c, ?c]) = [(2, RetryCallback, 5000)]"
    "timers (backoffState 3 [?c, ?c, ?c]) = [(3, RetryCallback, 10000)]"
    by (simp_all add: backoffState_def readyEngine_def initEngine_def RETRY_DELAYS_def)
  have ready: "mountedRef (backoffState 0 [])" "isOnline (backoffState 0 [])"
    "\<not> isSyncing (backoffState 0 [])"
    by (simp_all add: backoffState_def readyEngine_def initEngine_def)
  have pw: "(?P ^^ Suc (Suc (Suc 0))) (backoffState 0 []) = backoffState 3 [?c, ?c, ?c]"
    by (simp only: funpow.simps comp_apply id_apply p0 p1 p2)
  have hyp: "\<forall>k<Suc (Suc (Suc 0)). passAnyFailed ?r ((?P ^^ k) (backoffState 0 []))"
  proof (intro allI impI)
    fix k :: nat assume "k < Suc (Suc (Suc 0))"
    then have "k = 0 \<or> k = Suc 0 \<or> k = Suc (Suc 0)" by arith
    moreover have "passAnyFailed ?r ((?P ^^ 0) (backoffState 0 []))"
      "passAnyFailed ?r ((?P ^^ Suc 0) (backoffState 0 []))"
      "passAnyFailed ?r ((?P ^^ Suc (Suc 0)) (backoffState 0 []))"
      by (simp_all only: funpow.simps comp_apply id_apply p0 p1 f0 f1 f2)
    ultimately show "passAnyFailed ?r ((?P ^^ k) (backoffState 0 []))"
      by blast
  qed
  from backoff_schedule[where r = ?r and n = "Suc (Suc (Suc 0))", OF ready hyp]
  have "\<not> passAnyFailed ?r ((?P ^^ Suc (Suc (Suc 0))) (backoffState 0 [])) \<longrightarrow>
            currentRetryIndex ((?P ^^ Suc (Suc (Suc (Suc 0)))) (backoffState 0 [])) = 0"
    by simp
  then have "currentRetryIndex (?P (backoffState 3 [?c, ?c, ?c])) = 0"
    using f3 by (simp only: funpow.simps comp_apply id_apply p0 p1 p2 simp_thms)
  with f0 f1 f2 f3 p0 p1 p2 t show ?thesis
    by blast
qed


section \<open>Invariants of the event loop\<close>

lemma afterLoop_passes: "passes (afterLoop af s) = passes s"
  by (auto simp: afterLoop_def setTimeout_def clearTimeout_def Let_def split: option.splits)

lemma afterLoop_isSyncing: "\<not> isSyncing (afterLoop af s)"
  by (auto simp: afterLoop_def setTimeout_def clearTimeout_def Let_def split: option.splits)

lemma resumePass_passInv: "passInv s \<Longrightarrow> passInv (resumePass r i s)"
proof -
  assume a: "passInv s"
  show ?thesis
  proof (cases "i < length (passes s)")
    case False
    then show ?thesis using a by (simp add: resumePass_def)
  next
    case True
    with a obtain p where p: "passes s = [p]" "i = 0"
      by (cases "passes s") (auto simp: passInv_def)
    show ?thesis
    proof (cases p)
      case Fetching
      then show ?thesis using p a
        by (auto simp: resumePass_def passInv_def dropPass_def Let_def)
    next
      case (Looping items af)
      then show ?thesis using p a
        by (cases items)
           (auto simp: resumePass_def passInv_def dropPass_def afterLoop_passes afterLoop_isSyncing
                 split: prod.splits)
    qed
  qed
qed

lemma handle_passInv: "passInv s \<Longrightarrow> passInv (handle r ev s)"
proof (cases ev)
  case (Resume i)
  assume "passInv s"
  then show ?thesis using Resume by (simp add: handle_def resumePass_passInv)
qed (auto simp: handle_def mount_def unmount_def handleConnectivityChange_def
       handleAppStateChange_def triggerSync_def syncNow_def fireTimer_def flushOutbox_def
       setTimeout_def clearTimeout_def passInv_def Let_def
       split: option.splits timer_callback.splits)

lemma run_passInv: "passInv s \<Longrightarrow> passInv (run r evs s)"
  unfolding run_def by (induction evs arbitrary: s) (auto simp: handle_passInv)

lemma init_passInv: "passInv (initEngine b c)"
  by (simp add: passInv_def initEngine_def)

lemma flushOutbox_timers [simp]:
  "timers (flushOutbox s) = timers s" "nextTimerId (flushOutbox s) = nextTimerId s"
  "retryTimeoutId (flushOutbox s) = retryTimeoutId s"
  by (simp_all add: flushOutbox_def)

lemma timerInv_cong:
  "timers s' = timers s \<Longrightarrow> nextTimerId s' = nextTimerId s \<Longrightarrow>
   retryTimeoutId s' = retryTimeoutId s \<Longrightarrow> timerInv s' = timerInv s"
  by (simp add: timerInv_def)

lemma afterLoop_timerInv: "timerInv s \<Longrightarrow> timerInv (afterLoop af s)"
proof -
  assume a: "timerInv s"
  show ?thesis
  proof (cases "af \<and> isOnline s \<and> mountedRef s")
    case False
    then have "afterLoop af s = s\<lparr>currentRetryIndex := 0, isSyncing := False\<rparr>"
      by (simp add: afterLoop_ok)
    then show ?thesis using a by (simp add: timerInv_def)
  next
    case True
    then have e: "afterLoop af s = afterLoop True s" by simp
    show ?thesis
      unfolding e using True a
      by (subst afterLoop_failed) (auto simp: timerInv_def less_Suc_eq distinct_map_filter)
  qed
qed

lemma resumePass_timerInv: "timerInv s \<Longrightarrow> timerInv (resumePass r i s)"
proof -
  assume a: "timerInv s"
  have d: "timerInv (dropPass i s)" using a by (simp add: timerInv_def dropPass_def)
  show ?thesis
  proof (cases "i < length (passes s)")
    case False
    then show ?thesis using a by (simp add: resumePass_def)
  next
    case True
    show ?thesis
    proof (cases "passes s ! i")
      case Fetching
      then show ?thesis using True a d
        by (auto simp: resumePass_def Let_def timerInv_def dropPass_def)
    next
      case (Looping items af)
      then show ?thesis using True a afterLoop_timerInv[OF d]
        by (cases items) (auto simp: resumePass_def timerInv_def split: prod.splits)
    qed
  qed
qed

lemma handle_timerInv: "timerInv s \<Longrightarrow> timerInv (handle r ev s)"
proof (cases ev)
  case (Resume i)
  assume "timerInv s"
  then show ?thesis using Resume by (simp add: handle_def resumePass_timerInv)
next
  case Unmount
  assume "timerInv s"
  then show ?thesis using Unmount
    by (auto simp: handle_def unmount_def clearTimeout_def timerInv_def Let_def distinct_map_filter
          split: option.splits)
next
  case (TimerFires t)
  assume "timerInv s"
  then show ?thesis using TimerFires
    by (auto simp: handle_def fireTimer_def timerInv_def Let_def distinct_map_filter flushOutbox_def
          split: option.splits timer_callback.splits)
next
  case TriggerSync
  assume "timerInv s"
  then show ?thesis using TriggerSync
    by (auto simp: handle_def triggerSync_def syncNow_def setTimeout_def timerInv_def less_Suc_eq)
qed (auto simp: handle_def mount_def handleConnectivityChange_def
       handleAppStateChange_def flushOutbox_def timerInv_def Let_def
       split: option.splits)

lemma run_timerInv: "timerInv s \<Longrightarrow> timerInv (run r evs s)"
  unfolding run_def by (induction evs arbitrary: s) (auto simp: handle_timerInv)

lemma init_timerInv: "timerInv (initEngine b c)"
  by (simp add: timerInv_def initEngine_def)


lemma trigger_while_syncing:
  assumes "isSyncing s"
  shows "isTrigger ev \<Longrightarrow> passes (handle r ev s) = passes s \<and> bk (handle r ev s) = bk s"
    and "passes (handle r (TimerFires t) s) = passes s \<and> bk (handle r (TimerFires t) s) = bk s"
  using assms
  by (cases ev;
      auto simp: isTrigger_def handle_def mount_def handleConnectivityChange_def
        handleAppStateChange_def triggerSync_def syncNow_def fireTimer_def flushOutbox_def
        setTimeout_def Let_def split: option.splits timer_callback.splits)+

lemma distinct_fst_filter_le1:
  "distinct (map fst ts) \<Longrightarrow> length (filter (\<lambda>x. fst x = t) ts) \<le> 1"
  by (induction ts) (auto simp: filter_empty_conv image_iff)

lemma timerInv_retry_le1:
  assumes "timerInv s"
  shows "length (retryTimers s) \<le> 1"
proof (cases "retryTimeoutId s")
  case None
  then have "retryTimers s = []"
    using assms by (auto simp: retryTimers_def timerInv_def filter_empty_conv)
  then show ?thesis by simp
next
  case (Some t)
  have e: "retryTimers s = filter (\<lambda>x. fst (snd x) = RetryCallback) (filter (\<lambda>x. fst x = t) (timers s))"
    unfolding retryTimers_def filter_filter
    using assms Some by (intro filter_cong) (auto simp: timerInv_def)
  have "length (retryTimers s) \<le> length (filter (\<lambda>x. fst x = t) (timers s))"
    unfolding e by (rule length_filter_le)
  also have "\<dots> \<le> 1"
    using assms by (intro distinct_fst_filter_le1) (simp add: timerInv_def)
  finally show ?thesis .
qed

lemma trigger_retryTimers:
  "isTrigger ev \<Longrightarrow> retryTimers (handle r ev s) = retryTimers s"
  by (cases ev)
     (auto simp: isTrigger_def retryTimers_def handle_def mount_def handleConnectivityChange_def
        handleAppStateChange_def triggerSync_def syncNow_def flushOutbox_def
        setTimeout_def Let_def)

lemma fireTimer_retryTimers:
  "retryTimers (handle r (TimerFires t) s) = filter (\<lambda>x. fst x \<noteq> t) (retryTimers s)"
proof (cases "find (\<lambda>x. fst x = t) (timers s)")
  case None
  then have "\<forall>x\<in>set (timers s). fst x \<noteq> t"
    by (auto simp: find_None_iff)
  then have "filter (\<lambda>x. fst x \<noteq> t) (retryTimers s) = retryTimers s"
    unfolding retryTimers_def filter_filter by (intro filter_cong) auto
  then show ?thesis using None
    by (simp add: handle_def fireTimer_def)
next
  case (Some x)
  have "filter (\<lambda>x. fst (snd x) = RetryCallback) (filter (\<lambda>x. fst x \<noteq> t) (timers s)) =
        filter (\<lambda>x. fst x \<noteq> t) (filter (\<lambda>x. fst (snd x) = RetryCallback) (timers s))"
    unfolding filter_filter by (intro filter_cong) auto
  then show ?thesis using Some
    by (cases x)
       (auto simp: retryTimers_def handle_def fireTimer_def flushOutbox_def Let_def
          split: timer_callback.splits)
qed

lemma timerInv_stale:
  "timerInv s \<Longrightarrow> filter (\<lambda>x. Some (fst x) \<noteq> retryTimeoutId s) (retryTimers s) = []"
  by (auto simp: timerInv_def retryTimers_def filter_empty_conv)

lemma afterLoop_retryTimers:
  assumes "timerInv s"
  shows "retryTimers (afterLoop af s) =
           (if af \<and> isOnline s \<and> mountedRef s
            then [(nextTimerId s, RetryCallback, RETRY_DELAYS ! min (currentRetryIndex s) 3)]
            else retryTimers s)"
proof (cases "af \<and> isOnline s \<and> mountedRef s")
  case False
  then have "afterLoop af s = s\<lparr>currentRetryIndex := 0, isSyncing := False\<rparr>"
    by (rule afterLoop_ok)
  then show ?thesis using False by (auto simp: retryTimers_def)
next
  case True
  have c: "filter (\<lambda>x. fst (snd x) = RetryCallback)
             (filter (\<lambda>x. Some (fst x) \<noteq> retryTimeoutId s) (timers s)) =
           filter (\<lambda>x. Some (fst x) \<noteq> retryTimeoutId s) (retryTimers s)"
    unfolding retryTimers_def filter_filter by (intro filter_cong) auto
  have e: "afterLoop af s = afterLoop True s" using True by simp
  show ?thesis
    unfolding e using True timerInv_stale[OF assms] c
    by (subst afterLoop_failed) (simp_all add: retryTimers_def)
qed

lemma resumePass_retryTimers:
  assumes "timerInv s"
  shows "retryTimers (resumePass r i s) =
           (if i < length (passes s) \<and> passes s ! i = Looping [] True \<and> isOnline s \<and> mountedRef s
            then [(nextTimerId s, RetryCallback, RETRY_DELAYS ! min (currentRetryIndex s) 3)]
            else retryTimers s)"
proof (cases "i < length (passes s)")
  case False
  then show ?thesis by (simp add: resumePass_def)
next
  case True
  have d: "timerInv (dropPass i s)" using assms by (simp add: timerInv_def dropPass_def)
  have dr: "retryTimers (dropPass i s) = retryTimers s" "isOnline (dropPass i s) = isOnline s"
    "mountedRef (dropPass i s) = mountedRef s" "nextTimerId (dropPass i s) = nextTimerId s"
    "currentRetryIndex (dropPass i s) = currentRetryIndex s"
    by (simp_all add: dropPass_def retryTimers_def)
  show ?thesis
  proof (cases "passes s ! i")
    case Fetching
    then show ?thesis using True
      by (simp add: resumePass_def Let_def retryTimers_def dropPass_def)
  next
    case (Looping items af)
    show ?thesis
    proof (cases items)
      case Nil
      then show ?thesis using True Looping afterLoop_retryTimers[OF d, of af] dr
        by (simp add: resumePass_def)
    next
      case (Cons y ys)
      show ?thesis
      proof (cases "\<not> mountedRef s \<or> \<not> isOnline s")
        case True
        then show ?thesis using \<open>i < length (passes s)\<close> Looping Cons
            afterLoop_retryTimers[OF d, of af] dr
          by (auto simp: resumePass_def)
      next
        case False
        then show ?thesis using True Looping Cons
          by (simp add: resumePass_def retryTimers_def split: prod.splits)
      qed
    qed
  qed
qed

lemma unmount_retryTimers:
  assumes "timerInv s"
  shows "retryTimers (unmount s) = []"
proof (cases "retryTimeoutId s")
  case None
  then show ?thesis using assms
    by (auto simp: unmount_def retryTimers_def timerInv_def Let_def filter_empty_conv)
next
  case (Some t)
  have "(\<lambda>x. fst x \<noteq> t) = (\<lambda>x. Some (fst x) \<noteq> retryTimeoutId s)"
    using Some by auto
  moreover have "filter (\<lambda>x. fst (snd x) = RetryCallback)
             (filter (\<lambda>x. Some (fst x) \<noteq> retryTimeoutId s) (timers s)) = []"
    using assms by (auto simp: timerInv_def filter_empty_conv)
  ultimately show ?thesis using Some
    by (simp add: unmount_def retryTimers_def Let_def clearTimeout_def)
qed

lemma handle_retryTimers:
  assumes "timerInv s"
  shows "retryTimers (handle r ev s) =
     (case ev of
        Unmount \<Rightarrow> []
      | TimerFires t \<Rightarrow> filter (\<lambda>x. fst x \<noteq> t) (retryTimers s)
      | Resume i \<Rightarrow>
          if i < length (passes s) \<and> passes s ! i = Looping [] True \<and> isOnline s \<and> mountedRef s
          then [(nextTimerId s, RetryCallback, RETRY_DELAYS ! min (currentRetryIndex s) 3)]
          else retryTimers s
      | _ \<Rightarrow> retryTimers s)"
proof (cases ev)
  case Unmount
  then show ?thesis using unmount_retryTimers[OF assms] by (simp add: handle_def)
next
  case (TimerFires t)
  then show ?thesis using fireTimer_retryTimers[of r t s] by simp
next
  case (Resume i)
  then show ?thesis using resumePass_retryTimers[OF assms, of r i] by (simp add: handle_def)
next
  case (Tick n)
  then show ?thesis by (simp add: handle_def retryTimers_def)
next
  case (UiInsertIdea u c t p st)
  then show ?thesis by (simp add: handle_def retryTimers_def split: option.splits)
next
  case (UiDeleteIdea l)
  then show ?thesis by (simp add: handle_def retryTimers_def)
next
  case (UiEnqueue i a p)
  then show ?thesis by (simp add: handle_def retryTimers_def split: option.splits)
qed (simp_all add: trigger_retryTimers isTrigger_def)

lemma flushOutboxPass_retryTimers:
  assumes "timerInv s"
  shows "retryTimers (flushOutboxPass r s) =
     (if mountedRef s \<and> isOnline s \<and> \<not> isSyncing s \<and> passAnyFailed r s
      then [(nextTimerId s, RetryCallback, RETRY_DELAYS ! min (currentRetryIndex s) 3)]
      else retryTimers s)"
proof (cases "mountedRef s \<and> isOnline s \<and> \<not> isSyncing s")
  case False
  then show ?thesis by (auto simp: flushOutboxPass_def)
next
  case True
  then have ready: "mountedRef s" "isOnline s" "\<not> isSyncing s" by simp_all
  show ?thesis
  proof (cases "passAnyFailed r s")
    case True
    have c: "filter (\<lambda>x. fst (snd x) = RetryCallback)
             (filter (\<lambda>x. Some (fst x) \<noteq> retryTimeoutId s) (timers s)) = []"
      using assms by (auto simp: timerInv_def filter_empty_conv)
    show ?thesis
      using flushOutboxPass_failed(3)[OF ready True] c ready True
      by (simp add: retryTimers_def)
  next
    case False
    then show ?thesis
      using flushOutboxPass_ok(2)[OF ready False] by (simp add: retryTimers_def)
  qed
qed


section \<open>The uninterrupted pass in the event loop\<close>

text \<open>
  \<open>flushOutboxPass\<close> is what the event loop does when a call of \<open>flushOutbox\<close> is
  resumed again and again with no other event in between.
\<close>

lemma resume_idle_step: "passes s = [] \<Longrightarrow> handle r (Resume i) s = s"
  by (simp add: handle_def resumePass_def)

lemma resume_idle: "passes s = [] \<Longrightarrow> run r (replicate n (Resume i)) s = s"
  by (induction n) (simp_all add: run_def resume_idle_step)

lemma run_replicate_Suc:
  "run r (replicate (Suc n) ev) s = run r (replicate n ev) (handle r ev s)"
  by (simp add: run_def)

lemma passes_reset: "passes s = [] \<Longrightarrow> s\<lparr>passes := []\<rparr> = s"
  by (cases s) simp

lemma resume_loop:
  assumes "passes s = []"
  shows "run r (replicate (Suc (length items)) (Resume 0)) (s\<lparr>passes := [Looping items af]\<rparr>) =
           (case drainLoop r s items af of (af', s') \<Rightarrow> afterLoop af' s')"
  using assms
proof (induction items arbitrary: s af)
  case Nil
  then show ?case
    by (simp add: run_def handle_def resumePass_def dropPass_def passes_reset)
next
  case (Cons x xs)
  show ?case
  proof (cases "\<not> mountedRef s \<or> \<not> isOnline s")
    case True
    have "handle r (Resume 0) (s\<lparr>passes := [Looping (x # xs) af]\<rparr>) = afterLoop af s"
      using True Cons.prems by (auto simp: handle_def resumePass_def dropPass_def passes_reset)
    moreover have "passes (afterLoop af s) = []"
      using Cons.prems by (simp add: afterLoop_passes)
    ultimately show ?thesis using True
      by (simp add: run_replicate_Suc resume_idle resume_idle_step del: replicate.simps)
  next
    case False
    obtain ok b' where p: "processItem r (clock s) (bk s) x = (ok, b')"
      by (cases "processItem r (clock s) (bk s) x")
    have "handle r (Resume 0) (s\<lparr>passes := [Looping (x # xs) af]\<rparr>) =
          (s\<lparr>bk := b'\<rparr>)\<lparr>passes := [Looping xs (af \<or> \<not> ok)]\<rparr>"
      using False p by (simp add: handle_def resumePass_def)
    moreover have "run r (replicate (Suc (length xs)) (Resume 0))
            ((s\<lparr>bk := b'\<rparr>)\<lparr>passes := [Looping xs (af \<or> \<not> ok)]\<rparr>) =
          (case drainLoop r (s\<lparr>bk := b'\<rparr>) xs (af \<or> \<not> ok) of (af', s') \<Rightarrow> afterLoop af' s')"
      using Cons.prems by (intro Cons.IH) simp
    ultimately show ?thesis using False p
      by (simp add: run_replicate_Suc del: replicate.simps)
  qed
qed

lemma pass_refinement:
  assumes "passes s = []"
  shows "run r (replicate (length (getOutboxItems (outbox (bk s))) + 2) (Resume 0)) (flushOutbox s) =
         flushOutboxPass r s"
proof (cases "\<not> mountedRef s \<or> isSyncing s \<or> \<not> isOnline s")
  case True
  then show ?thesis using assms
    by (simp add: flushOutbox_def flushOutboxPass_def resume_idle del: replicate.simps)
next
  case False
  let ?items = "getOutboxItems (outbox (bk s))"
  let ?s1 = "s\<lparr>isSyncing := True\<rparr>"
  have f: "flushOutbox s = ?s1\<lparr>passes := [Fetching]\<rparr>"
    using False assms by (simp add: flushOutbox_def)
  show ?thesis
  proof (cases "?items = []")
    case True
    have "handle r (Resume 0) (?s1\<lparr>passes := [Fetching]\<rparr>) =
          ?s1\<lparr>currentRetryIndex := 0, isSyncing := False\<rparr>"
      using True assms by (cases s) (simp add: handle_def resumePass_def dropPass_def)
    moreover have "passes (?s1\<lparr>currentRetryIndex := 0, isSyncing := False\<rparr>) = []"
      using assms by simp
    ultimately show ?thesis using True False f
      by (simp add: numeral_2_eq_2 run_replicate_Suc resume_idle resume_idle_step
            flushOutboxPass_def del: replicate.simps)
  next
    case ne: False
    have "handle r (Resume 0) (?s1\<lparr>passes := [Fetching]\<rparr>) = ?s1\<lparr>passes := [Looping ?items False]\<rparr>"
      using ne by (simp add: handle_def resumePass_def)
    moreover have "run r (replicate (Suc (length ?items)) (Resume 0)) (?s1\<lparr>passes := [Looping ?items False]\<rparr>) =
          (case drainLoop r ?s1 ?items False of (af', s') \<Rightarrow> afterLoop af' s')"
      using assms by (intro resume_loop) simp
    moreover have "length ?items + 2 = Suc (Suc (length ?items))"
      by simp
    ultimately show ?thesis using ne False f
      by (simp add: run_replicate_Suc flushOutboxPass_def Let_def del: replicate.simps)
  qed
qed

section \<open>One drain pass at a time\<close>

text \<open>
  Claim C2. In every state that the engine reaches from its initial state, at most one
  call of \<open>flushOutbox\<close> is in flight, and \<open>isSyncing\<close> is true exactly when one is. A
  call of \<open>flushOutbox\<close>, which is what each trigger comes to, changes nothing when
  \<open>isSyncing\<close> is true or the engine is offline, and \<open>syncNow\<close> changes nothing when the
  engine is offline; while \<open>isSyncing\<close> is true no trigger and no timer starts a pass or
  touches the tables. Whenever a call in flight ends, on any of its paths (empty outbox,
  loop run to its end, loop left early), \<open>isSyncing\<close> is false afterwards and no call is
  in flight; and when no call is in flight and the engine is mounted and online, a call
  of \<open>flushOutbox\<close> starts a pass.
\<close>

theorem at_most_one_drain:
  "length (passes (run r evs (initEngine b c))) \<le> 1 \<and>
   isSyncing (run r evs (initEngine b c)) = (passes (run r evs (initEngine b c)) \<noteq> []) \<and>
   (isSyncing s \<or> \<not> isOnline s \<longrightarrow> flushOutbox s = s) \<and>
   (\<not> isOnline s \<longrightarrow> syncNow s = s) \<and>
   (isSyncing s \<and> isTrigger ev \<longrightarrow>
      passes (handle r ev s) = passes s \<and> bk (handle r ev s) = bk s) \<and>
   (isSyncing s \<longrightarrow>
      passes (handle r (TimerFires t) s) = passes s \<and> bk (handle r (TimerFires t) s) = bk s) \<and>
   (length (passes (resumePass r i (run r evs (initEngine b c))))
      < length (passes (run r evs (initEngine b c))) \<longrightarrow>
      \<not> isSyncing (resumePass r i (run r evs (initEngine b c))) \<and>
      passes (resumePass r i (run r evs (initEngine b c))) = []) \<and>
   (passes (run r evs (initEngine b c)) = [] \<and> mountedRef (run r evs (initEngine b c)) \<and>
    isOnline (run r evs (initEngine b c)) \<longrightarrow>
      passes (flushOutbox (run r evs (initEngine b c))) = [Fetching] \<and>
      isSyncing (flushOutbox (run r evs (initEngine b c))))"
proof -
  let ?S = "run r evs (initEngine b c)"
  have inv: "passInv ?S" by (intro run_passInv init_passInv)
  have inv': "passInv (resumePass r i ?S)" using inv by (rule resumePass_passInv)
  have 1: "length (passes ?S) \<le> 1" and 2: "isSyncing ?S = (passes ?S \<noteq> [])"
    using inv by (simp_all add: passInv_def)
  have 3: "isSyncing s \<or> \<not> isOnline s \<Longrightarrow> flushOutbox s = s"
    by (auto simp: flushOutbox_def)
  have 4: "\<not> isOnline s \<Longrightarrow> syncNow s = s"
    by (simp add: syncNow_def)
  note 5 = trigger_while_syncing(1)[of s ev r] trigger_while_syncing(2)[of s r t]
  have 6: "\<not> isSyncing (resumePass r i ?S) \<and> passes (resumePass r i ?S) = []"
    if "length (passes (resumePass r i ?S)) < length (passes ?S)"
  proof -
    have "length (passes (resumePass r i ?S)) = 0" using that 1 by arith
    then have "passes (resumePass r i ?S) = []" by simp
    then show ?thesis using inv' by (simp add: passInv_def)
  qed
  have 7: "passes (flushOutbox ?S) = [Fetching] \<and> isSyncing (flushOutbox ?S)"
    if "passes ?S = [] \<and> mountedRef ?S \<and> isOnline ?S"
    using that 2 by (simp add: flushOutbox_def)
  show ?thesis
    using 1 2 3 4 5 6 7 by blast
qed


theorem at_most_one_drain_witness:
  "isSyncing (run remoteUp [Mount] (initEngine (sampleBackend [] []) 0)) \<and>
   isTrigger (AppStateChange Active) \<and>
   passes (handle remoteUp (AppStateChange Active)
             (run remoteUp [Mount] (initEngine (sampleBackend [] []) 0))) = [Fetching] \<and>
   length (passes (resumePass remoteUp 0 (run remoteUp [Mount] (initEngine (sampleBackend [] []) 0))))
     < length (passes (run remoteUp [Mount] (initEngine (sampleBackend [] []) 0))) \<and>
   \<not> isSyncing (resumePass remoteUp 0 (run remoteUp [Mount] (initEngine (sampleBackend [] []) 0))) \<and>
   passes (run remoteUp [Mount, Resume 0] (initEngine (sampleBackend [] []) 0)) = [] \<and>
   mountedRef (run remoteUp [Mount, Resume 0] (initEngine (sampleBackend [] []) 0)) \<and>
   isOnline (run remoteUp [Mount, Resume 0] (initEngine (sampleBackend [] []) 0)) \<and>
   passes (flushOutbox (run remoteUp [Mount, Resume 0] (initEngine (sampleBackend [] []) 0))) =
     [Fetching]"
proof -
  let ?I = "initEngine (sampleBackend [] []) 0"
  let ?S1 = "run remoteUp [Mount] ?I"
  let ?S2 = "run remoteUp [Mount, Resume 0] ?I"
  have tr: "isTrigger (AppStateChange Active)"
    by (simp add: isTrigger_def)
  have e1: "isSyncing ?S1" "passes ?S1 = [Fetching]"
    "length (passes (resumePass remoteUp 0 ?S1)) < length (passes ?S1)"
    by (simp_all add: machine_eval)
  have e2: "passes ?S2 = []" "mountedRef ?S2" "isOnline ?S2"
    by (simp_all add: machine_eval)
  note t1 = at_most_one_drain[where r = remoteUp and evs = "[Mount]" and b = "sampleBackend [] []"
      and c = 0 and s = ?S1 and ev = "AppStateChange Active" and i = 0]
  note t2 = at_most_one_drain[where r = remoteUp and evs = "[Mount, Resume 0]"
      and b = "sampleBackend [] []" and c = 0]
  from t1 e1(1) tr have a: "passes (handle remoteUp (AppStateChange Active) ?S1) = passes ?S1"
    by blast
  from t1 e1(3) have b: "\<not> isSyncing (resumePass remoteUp 0 ?S1)"
    by blast
  from t2 e2 have c: "passes (flushOutbox ?S2) = [Fetching]"
    by blast
  from a b c e1 e2 tr show ?thesis
    by simp
qed

section \<open>The pending retry\<close>

text \<open>
  Claim C8, as the code has it. In every state that the engine reaches, at most one
  retry timer is pending, and it is the timer that \<open>retryTimeoutId\<close> names. A trigger
  (mount, report of NetInfo, change of app state, \<open>triggerSync\<close>) leaves the pending
  retry as it is; a timer that expires removes itself alone. For every event, the
  pending retries after the event are: none after the hook unmounts; the ones before
  without the timer that expired; the one new retry, with the delay of the backoff
  index, after the step in which a pass leaves its loop with \<open>anyFailed\<close> true, online
  and mounted (the old one is cleared before the new one is scheduled); and the ones
  before after every other event, the other steps of a pass among them: a pass that
  ends with \<open>anyFailed\<close> false, offline or unmounted leaves the pending retry as it
  is. The same holds of an uninterrupted pass as a whole.
\<close>

theorem retry_timer_unique:
  "length (retryTimers (run r evs (initEngine b c))) \<le> 1 \<and>
   (\<forall>x\<in>set (retryTimers (run r evs (initEngine b c))).
      retryTimeoutId (run r evs (initEngine b c)) = Some (fst x)) \<and>
   (isTrigger ev \<longrightarrow> retryTimers (handle r ev s) = retryTimers s) \<and>
   retryTimers (handle r (TimerFires t) s) = filter (\<lambda>x. fst x \<noteq> t) (retryTimers s) \<and>
   (isOnline (run r evs (initEngine b c)) \<and> mountedRef (run r evs (initEngine b c)) \<longrightarrow>
      retryTimers (afterLoop True (run r evs (initEngine b c))) =
        [(nextTimerId (run r evs (initEngine b c)), RetryCallback,
          RETRY_DELAYS ! min (currentRetryIndex (run r evs (initEngine b c))) 3)]) \<and>
   retryTimers (unmount (run r evs (initEngine b c))) = [] \<and>
   retryTimers (handle r ev' (run r evs (initEngine b c))) =
     (case ev' of
        Unmount \<Rightarrow> []
      | TimerFires t \<Rightarrow> filter (\<lambda>x. fst x \<noteq> t) (retryTimers (run r evs (initEngine b c)))
      | Resume i \<Rightarrow>
          if i < length (passes (run r evs (initEngine b c))) \<and>
             passes (run r evs (initEngine b c)) ! i = Looping [] True \<and>
             isOnline (run r evs (initEngine b c)) \<and> mountedRef (run r evs (initEngine b c))
          then [(nextTimerId (run r evs (initEngine b c)), RetryCallback,
                 RETRY_DELAYS ! min (currentRetryIndex (run r evs (initEngine b c))) 3)]
          else retryTimers (run r evs (initEngine b c))
      | _ \<Rightarrow> retryTimers (run r evs (initEngine b c))) \<and>
   retryTimers (afterLoop False (run r evs (initEngine b c))) =
     retryTimers (run r evs (initEngine b c)) \<and>
   retryTimers (flushOutboxPass r (run r evs (initEngine b c))) =
     (if mountedRef (run r evs (initEngine b c)) \<and> isOnline (run r evs (initEngine b c)) \<and>
         \<not> isSyncing (run r evs (initEngine b c)) \<and> passAnyFailed r (run r evs (initEngine b c))
      then [(nextTimerId (run r evs (initEngine b c)), RetryCallback,
             RETRY_DELAYS ! min (currentRetryIndex (run r evs (initEngine b c))) 3)]
      else retryTimers (run r evs (initEngine b c)))"
proof -
  let ?S = "run r evs (initEngine b c)"
  have inv: "timerInv ?S" by (intro run_timerInv init_timerInv)
  have 1: "length (retryTimers ?S) \<le> 1"
    using inv by (rule timerInv_retry_le1)
  have 2: "\<forall>x\<in>set (retryTimers ?S). retryTimeoutId ?S = Some (fst x)"
    using inv by (auto simp: timerInv_def retryTimers_def)
  have 3: "isTrigger ev \<longrightarrow> retryTimers (handle r ev s) = retryTimers s"
    by (simp add: trigger_retryTimers)
  note 4 = fireTimer_retryTimers[of r t s]
  have 5: "isOnline ?S \<and> mountedRef ?S \<longrightarrow> retryTimers (afterLoop True ?S) =
        [(nextTimerId ?S, RetryCallback, RETRY_DELAYS ! min (currentRetryIndex ?S) 3)]"
    using afterLoop_retryTimers[OF inv, of True] by simp
  note 6 = unmount_retryTimers[OF inv]
  note 7 = handle_retryTimers[OF inv, of r ev']
  have 8: "retryTimers (afterLoop False ?S) = retryTimers ?S"
    using afterLoop_retryTimers[OF inv, of False] by simp
  note 9 = flushOutboxPass_retryTimers[OF inv, of r]
  show ?thesis
    by (intro conjI 1 2 3 4 5 6 7 8 9)
qed

theorem retry_timer_unique_witness:
  "isTrigger (AppStateChange Active) \<and>
   retryTimers (run remoteDown [Mount, Resume 0, Resume 0, Resume 0]
          (initEngine (sampleBackend []
             [sampleItem ''e1'' createProject (samplePayload ''L1'' None None) 5 0]) 0)) =
     [(1, RetryCallback, 2000)] \<and>
   retryTimeoutId (run remoteDown [Mount, Resume 0, Resume 0, Resume 0]
          (initEngine (sampleBackend []
             [sampleItem ''e1'' createProject (samplePayload ''L1'' None None) 5 0]) 0)) = Some 1 \<and>
   retryTimers (handle remoteDown (AppStateChange Active)
      (run remoteDown [Mount, Resume 0, Resume 0, Resume 0]
          (initEngine (sampleBackend []
             [sampleItem ''e1'' createProject (samplePayload ''L1'' None None) 5 0]) 0))) =
     [(1, RetryCallback, 2000)] \<and>
   isOnline (run remoteDown [Mount, Resume 0, Resume 0, Resume 0]
          (initEngine (sampleBackend []
             [sampleItem ''e1'' createProject (samplePayload ''L1'' None None) 5 0]) 0)) \<and>
   mountedRef (run remoteDown [Mount, Resume 0, Resume 0, Resume 0]
          (initEngine (sampleBackend []
             [sampleItem ''e1'' createProject (samplePayload ''L1'' None None) 5 0]) 0)) \<and>
   retryTimers (afterLoop True (run remoteDown [Mount, Resume 0, Resume 0, Resume 0]
          (initEngine (sampleBackend []
             [sampleItem ''e1'' createProject (samplePayload ''L1'' None None) 5 0]) 0))) =
     [(2, RetryCallback, 5000)] \<and>
   passes (run remoteDown
          [Mount, Resume 0, Resume 0, Resume 0, AppStateChange Active, Resume 0, Resume 0]
          (initEngine (sampleBackend []
             [sampleItem ''e1'' createProject (samplePayload ''L1'' None None) 5 0]) 0)) = [Looping [] True] \<and>
   isOnline (run remoteDown
          [Mount, Resume 0, Resume 0, Resume 0, AppStateChange Active, Resume 0, Resume 0]
          (initEngine (sampleBackend []
             [sampleItem ''e1'' createProject (samplePayload ''L1'' None None) 5 0]) 0)) \<and>
   mountedRef (run remoteDown
          [Mount, Resume 0, Resume 0, Resume 0, AppStateChange Active, Resume 0, Resume 0]
          (initEngine (sampleBackend []
             [sampleItem ''e1'' createProject (samplePayload ''L1'' None None) 5 0]) 0)) \<and>
   retryTimers (run remoteDown
          [Mount, Resume 0, Resume 0, Resume 0, AppStateChange Active, Resume 0, Resume 0]
          (initEngine (sampleBackend []
             [sampleItem ''e1'' createProject (samplePayload ''L1'' None None) 5 0]) 0)) =
     [(1, RetryCallback, 2000)] \<and>
   retryTimers (handle remoteDown (Resume 0)
      (run remoteDown
          [Mount, Resume 0, Resume 0, Resume 0, AppStateChange Active, Resume 0, Resume 0]
          (initEngine (sampleBackend []
             [sampleItem ''e1'' createProject (samplePayload ''L1'' None None) 5 0]) 0))) =
     [(2, RetryCallback, 5000)]"
proof -
  let ?b = "sampleBackend [] [sampleItem ''e1'' createProject (samplePayload ''L1'' None None) 5 0]"
  let ?I = "initEngine ?b 0"
  let ?S = "run remoteDown [Mount, Resume 0, Resume 0, Resume 0] ?I"
  let ?S2 = "run remoteDown
          [Mount, Resume 0, Resume 0, Resume 0, AppStateChange Active, Resume 0, Resume 0] ?I"
  have tr: "isTrigger (AppStateChange Active)"
    by (simp add: isTrigger_def)
  have ev: "retryTimers ?S = [(1, RetryCallback, 2000)]" "isOnline ?S" "mountedRef ?S"
    "nextTimerId ?S = 2" "RETRY_DELAYS ! min (currentRetryIndex ?S) 3 = 5000"
    "retryTimeoutId ?S = Some 1"
    by (simp_all add: machine_eval remoteDown_def retryTimers_def)
  have ev2: "passes ?S2 = [Looping [] True]" "isOnline ?S2" "mountedRef ?S2"
    "retryTimers ?S2 = [(1, RetryCallback, 2000)]"
    "nextTimerId ?S2 = 2" "RETRY_DELAYS ! min (currentRetryIndex ?S2) 3 = 5000"
    by (simp_all add: machine_eval remoteDown_def retryTimers_def)
  from retry_timer_unique[where r = remoteDown and evs = "[Mount, Resume 0, Resume 0, Resume 0]"
      and b = ?b and c = 0 and ev = "AppStateChange Active" and s = ?S]
  have a: "retryTimers (handle remoteDown (AppStateChange Active) ?S) = retryTimers ?S"
    and b: "retryTimers (afterLoop True ?S) =
        [(nextTimerId ?S, RetryCallback, RETRY_DELAYS ! min (currentRetryIndex ?S) 3)]"
    using tr ev(2,3) by blast+
  from retry_timer_unique[where r = remoteDown
      and evs = "[Mount, Resume 0, Resume 0, Resume 0, AppStateChange Active, Resume 0, Resume 0]"
      and b = ?b and c = 0 and ev' = "Resume 0"]
  have c: "retryTimers (handle remoteDown (Resume 0) ?S2) =
     (if 0 < length (passes ?S2) \<and> passes ?S2 ! 0 = Looping [] True \<and> isOnline ?S2 \<and> mountedRef ?S2
      then [(nextTimerId ?S2, RetryCallback, RETRY_DELAYS ! min (currentRetryIndex ?S2) 3)]
      else retryTimers ?S2)"
    by simp
  have "retryTimers (handle remoteDown (Resume 0) ?S2) = [(2, RetryCallback, 5000)]"
    by (simp add: c ev2)
  with a b show ?thesis
    using tr ev ev2 by simp
qed

text \<open>
  The claim as it was stated fails: after a failed pass has scheduled a retry, a change
  of app state to active starts a new pass and the retry is still pending; it then
  expires while the new pass is in flight.
\<close>

theorem trigger_keeps_pending_retry:
  "timers (run remoteDown [Mount, Resume 0, Resume 0, Resume 0]
          (initEngine (sampleBackend []
             [sampleItem ''e1'' createProject (samplePayload ''L1'' None None) 5 0]) 0)) =
     [(1, RetryCallback, 2000)] \<and>
   passes (run remoteDown [Mount, Resume 0, Resume 0, Resume 0]
          (initEngine (sampleBackend []
             [sampleItem ''e1'' createProject (samplePayload ''L1'' None None) 5 0]) 0)) = [] \<and>
   timers (run remoteDown [Mount, Resume 0, Resume 0, Resume 0, AppStateChange Active]
          (initEngine (sampleBackend []
             [sampleItem ''e1'' createProject (samplePayload ''L1'' None None) 5 0]) 0)) =
     [(1, RetryCallback, 2000)] \<and>
   passes (run remoteDown [Mount, Resume 0, Resume 0, Resume 0, AppStateChange Active]
          (initEngine (sampleBackend []
             [sampleItem ''e1'' createProject (samplePayload ''L1'' None None) 5 0]) 0)) =
     [Fetching] \<and>
   timers (run remoteDown
             [Mount, Resume 0, Resume 0, Resume 0, AppStateChange Active, TimerFires 1]
          (initEngine (sampleBackend []
             [sampleItem ''e1'' createProject (samplePayload ''L1'' None None) 5 0]) 0)) = [] \<and>
   passes (run remoteDown
             [Mount, Resume 0, Resume 0, Resume 0, AppStateChange Active, TimerFires 1]
          (initEngine (sampleBackend []
             [sampleItem ''e1'' createProject (samplePayload ''L1'' None None) 5 0]) 0)) =
     [Fetching]"
  by (simp add: machine_eval remoteDown_def)



end
